theory Spec2Isabelle
  imports Main "HOL-Library.Word" "HOL-Library.Sublist"
begin

section \<open>JavaScript strings\<close>

text \<open>
  A JavaScript string is a sequence of 16-bit code units. Every string operation the
  extension uses (\<^verbatim>\<open>trim\<close>, \<^verbatim>\<open>startsWith\<close>, \<^verbatim>\<open>substring\<close>, \<^verbatim>\<open>replace\<close> with a
  global regular expression without the \<^verbatim>\<open>u\<close> flag, \<^verbatim>\<open>length\<close>, \<^verbatim>\<open>===\<close>) works on code
  units, so the model is a list of 16-bit words. \<open>js\<close> embeds an ASCII literal.
\<close>

type_synonym jsstring = "16 word list"

definition js :: "string \<Rightarrow> jsstring" where
  "js s = map (\<lambda>c. of_nat (of_char c)) s"

definition CR :: "16 word" where "CR = 13"
definition LF :: "16 word" where "LF = 10"

text \<open>
  The code units that \<^verbatim>\<open>String.prototype.trim\<close> removes: ECMAScript WhiteSpace
  (TAB, VT, FF, SP, NBSP, ZWNBSP and the Unicode space separators) and LineTerminator
  (LF, CR, LS, PS).
\<close>

definition isWhiteSpace :: "16 word \<Rightarrow> bool" where
  "isWhiteSpace c =
     (c = 0x09 \<or> c = 0x0A \<or> c = 0x0B \<or> c = 0x0C \<or> c = 0x0D \<or> c = 0x20 \<or> c = 0xA0
      \<or> c = 0x1680 \<or> (0x2000 \<le> c \<and> c \<le> 0x200A) \<or> c = 0x2028 \<or> c = 0x2029
      \<or> c = 0x202F \<or> c = 0x205F \<or> c = 0x3000 \<or> c = 0xFEFF)"

definition trim :: "jsstring \<Rightarrow> jsstring" where
  "trim s = rev (dropWhile isWhiteSpace (rev (dropWhile isWhiteSpace s)))"

text \<open>\<^verbatim>\<open>s.startsWith(p)\<close> is \<open>prefix p s\<close>; \<^verbatim>\<open>s.substring(2)\<close> is \<open>drop 2 s\<close>.\<close>

definition startsWith :: "jsstring \<Rightarrow> jsstring \<Rightarrow> bool" where
  "startsWith s p = prefix p s"

definition substring :: "jsstring \<Rightarrow> nat \<Rightarrow> jsstring" where
  "substring s n = drop n s"

text \<open>\<^verbatim>\<open>s.replace(/\\/g, "/")\<close>: every backslash (0x5C) becomes a slash (0x2F).\<close>

definition replaceBackslashes :: "jsstring \<Rightarrow> jsstring" where
  "replaceBackslashes s = map (\<lambda>c. if c = 0x5C then 0x2F else c) s"

text \<open>
  \<^verbatim>\<open>s.replace(/\r\n/g, "\n")\<close>: one scan from the left; at each position where CR LF
  starts, LF is emitted and the scan resumes after the match.
\<close>

fun replaceCRLF :: "jsstring \<Rightarrow> jsstring" where
  "replaceCRLF [] = []"
| "replaceCRLF [c] = [c]"
| "replaceCRLF (c # d # cs) =
     (if c = CR \<and> d = LF then LF # replaceCRLF cs else c # replaceCRLF (d # cs))"

text \<open>
  \<^verbatim>\<open>a || b\<close> on optional strings: \<^verbatim>\<open>undefined\<close> and the empty string are falsy, so
  \<open>a\<close> is chosen only when it is defined and non-empty.
\<close>

definition truthy :: "jsstring option \<Rightarrow> bool" where
  "truthy a = (case a of None \<Rightarrow> False | Some s \<Rightarrow> s \<noteq> [])"

definition js_or :: "jsstring option \<Rightarrow> jsstring option \<Rightarrow> jsstring option" where
  "js_or a b = (if truthy a then a else b)"

section \<open>Data model\<close>

text \<open>
  A URI is modelled by its string form (\<^verbatim>\<open>uri.toString()\<close>); the source compares URIs
  only through that form.
\<close>

type_synonym uri = jsstring

text \<open>
  \<^verbatim>\<open>Diff.ParsedDiff\<close> of the external diff library: the extension reads the two file
  names and hands the whole entry back to the library; the hunks are opaque to it.
\<close>

record 'h ParsedDiff =
  oldFileName :: "jsstring option"
  newFileName :: "jsstring option"
  hunks :: 'h

text \<open>
  A thrown value, as far as the source observes it: \<^verbatim>\<open>e.message\<close> rendered in a
  template literal, and \<^verbatim>\<open>String(err)\<close>.
\<close>

record thrown =
  thrown_message :: jsstring
  thrown_string :: jsstring

text \<open>Webview messages.\<close>

datatype MessageKind = Paste | Apply

record WebviewMessage =
  msg_type :: MessageKind
  msg_text :: "jsstring option"

text \<open>Result model.\<close>

datatype ResultKind = Ok | New | Fail

record ResultEntry =
  kind :: ResultKind
  entry_text :: jsstring

text \<open>
  \<^verbatim>\<open>vscode.TextDocument\<close>: its URI (\<^verbatim>\<open>document.uri\<close>) and its text (\<^verbatim>\<open>getText()\<close>).
  Both are the host's: \<^verbatim>\<open>openTextDocument(u)\<close> returns the document, and the source
  edits and saves it under the URI the document carries.
\<close>

record document =
  doc_uri :: uri
  doc_text :: jsstring

datatype position = Position nat nat

datatype range = Range position position

text \<open>
  The operations the source puts into a \<^verbatim>\<open>vscode.WorkspaceEdit\<close>:
  \<^verbatim>\<open>createFile(uri, {ignoreIfExists})\<close>, \<^verbatim>\<open>insert(uri, position, text)\<close> and
  \<^verbatim>\<open>replace(uri, range, text)\<close>.
\<close>

datatype edit_op =
    CreateFile uri bool
  | Insert uri position jsstring
  | Replace uri range jsstring

type_synonym WorkspaceEdit = "edit_op list"

record editor =
  editor_uri :: uri
  viewColumn :: "nat option"

text \<open>Messages the extension posts to the input view.\<close>

datatype view_message = Fill jsstring | Clear

text \<open>
  Every call the extension makes to the host editor or to the diff library, with its
  arguments. A run of the extension is described by the list of calls it makes, in
  order.
\<close>

datatype 'h event =
    ShowWarningMessage jsstring
  | ShowErrorMessage jsstring
  | CallParsePatch jsstring
  | OpenTextDocument uri
  | CallApplyPatch jsstring "'h ParsedDiff"
  | ApplyEdit WorkspaceEdit
  | Save document
  | ShowTextDocument document "nat option" bool
  | ShowResultPanel nat nat "ResultEntry list"
  | ClipboardReadText
  | ClipboardWriteText jsstring
  | PostMessage nat view_message

section \<open>The host editor and the diff library\<close>

text \<open>
  Neither the host API nor the diff library is part of the repository: both are
  parameters. A host answer may depend on everything that happened before, so each
  stateful host function takes the list of calls made so far. A call made inside one of
  the source's \<^verbatim>\<open>try\<close> blocks may throw (\<open>Inl\<close>); \<^verbatim>\<open>Diff.applyPatch\<close> returns \<^verbatim>\<open>false\<close>
  as \<open>None\<close>. Calls the source makes outside every \<^verbatim>\<open>try\<close> block (messages, the
  clipboard, \<^verbatim>\<open>joinPath\<close>, the results panel) are taken to return normally.
\<close>

record 'h host =
  workspaceFolder0 :: "'h event list \<Rightarrow> uri option"
  joinPath :: "uri \<Rightarrow> jsstring \<Rightarrow> uri"
  Diff_parsePatch :: "jsstring \<Rightarrow> thrown + 'h ParsedDiff list"
  Diff_applyPatch :: "jsstring \<Rightarrow> 'h ParsedDiff \<Rightarrow> thrown + jsstring option"
  openTextDocument :: "'h event list \<Rightarrow> uri \<Rightarrow> thrown + document"
  positionAt :: "document \<Rightarrow> nat \<Rightarrow> position"
  applyEdit :: "'h event list \<Rightarrow> WorkspaceEdit \<Rightarrow> thrown + bool"
  save :: "'h event list \<Rightarrow> document \<Rightarrow> thrown + bool"
  visibleTextEditors :: "'h event list \<Rightarrow> editor list"
  clipboard_readText :: "'h event list \<Rightarrow> jsstring"

text \<open>The provider's only field of its own: the input view, once resolved.\<close>

record PatchViewProvider =
  view :: "nat option"

section \<open>applyPatch\<close>

text \<open>The locals of \<^verbatim>\<open>applyPatch\<close>'s loop, and the calls made so far by this run.\<close>

record 'h loop_state =
  ok :: nat
  ko :: nat
  messages :: "ResultEntry list"
  trace :: "'h event list"

text \<open>
  Lines 196 to 200: the relative path of an entry, \<open>None\<close> when the loop skips the
  entry (\<^verbatim>\<open>continue\<close>).
\<close>

definition stripPrefix :: "jsstring \<Rightarrow> jsstring \<Rightarrow> jsstring" where
  "stripPrefix p relPath = (if startsWith relPath p then substring relPath 2 else relPath)"

definition relPathOf :: "'h ParsedDiff \<Rightarrow> jsstring option" where
  "relPathOf filePatch =
     (case js_or (newFileName filePatch) (oldFileName filePatch) of
        None \<Rightarrow> None
      | Some relPath \<Rightarrow>
          if relPath = [] \<or> relPath = js ''/dev/null'' then None
          else Some (replaceBackslashes (stripPrefix (js ''b/'') (stripPrefix (js ''a/'') relPath))))"

text \<open>Lines 205 to 216: the inner \<^verbatim>\<open>try\<close>; a document that cannot be opened is a new file.\<close>

definition openOriginal ::
  "'h host \<Rightarrow> 'h event list \<Rightarrow> uri \<Rightarrow> document option \<times> jsstring \<times> bool" where
  "openOriginal h now targetUri =
     (case openTextDocument h now targetUri of
        Inr d \<Rightarrow> (Some d, doc_text d, True)
      | Inl e \<Rightarrow> (None, [], False))"

text \<open>Lines 227 to 234: the workspace edit.\<close>

definition buildEdit ::
  "'h host \<Rightarrow> uri \<Rightarrow> document option \<Rightarrow> jsstring \<Rightarrow> jsstring \<Rightarrow> WorkspaceEdit" where
  "buildEdit h targetUri doc originalText patchedText =
     (case doc of
        None \<Rightarrow> [CreateFile targetUri True, Insert targetUri (Position 0 0) patchedText]
      | Some d \<Rightarrow>
          [Replace (doc_uri d)
             (Range (positionAt h d 0) (positionAt h d (length originalText))) patchedText])"

text \<open>The three places that count a failure: \<^verbatim>\<open>ko++\<close> and one \<^verbatim>\<open>fail\<close> entry.\<close>

definition failed :: "'h loop_state \<Rightarrow> 'h event list \<Rightarrow> jsstring \<Rightarrow> 'h loop_state" where
  "failed st tr msg =
     st\<lparr>ko := ko st + 1,
        messages := messages st @ [\<lparr>kind = Fail, entry_text = msg\<rparr>],
        trace := tr\<rparr>"

text \<open>Line 258: the outer \<^verbatim>\<open>catch\<close>.\<close>

definition caught :: "'h loop_state \<Rightarrow> 'h event list \<Rightarrow> jsstring \<Rightarrow> thrown \<Rightarrow> 'h loop_state" where
  "caught st tr relPath err = failed st tr (relPath @ js '': '' @ thrown_string err)"

text \<open>Lines 237 to 253: after a successful edit.\<close>

definition saveAndReport ::
  "'h host \<Rightarrow> 'h event list \<Rightarrow> 'h loop_state \<Rightarrow> 'h event list \<Rightarrow> uri \<Rightarrow> jsstring \<Rightarrow>
   document option \<Rightarrow> bool \<Rightarrow> 'h loop_state" where
  "saveAndReport h hist st t3 targetUri relPath doc existed =
     (let (reopened, t4) =
            (case doc of
               Some d \<Rightarrow> (Inr d, t3)
             | None \<Rightarrow>
                 (openTextDocument h (hist @ t3) targetUri, t3 @ [OpenTextDocument targetUri]))
      in case reopened of
           Inl err \<Rightarrow> caught st t4 relPath err
         | Inr docToSave \<Rightarrow>
             (let t5 = t4 @ [Save docToSave]
              in case save h (hist @ t4) docToSave of
                   Inl err \<Rightarrow> caught st t5 relPath err
                 | Inr saved \<Rightarrow>
                     (let t6 =
                            (case find (\<lambda>e. editor_uri e = doc_uri docToSave)
                                    (visibleTextEditors h (hist @ t5)) of
                               None \<Rightarrow> t5
                             | Some ed \<Rightarrow> t5 @ [ShowTextDocument docToSave (viewColumn ed) True])
                      in st\<lparr>ok := ok st + 1,
                            messages := messages st @
                              [\<lparr>kind = (if existed then Ok else New),
                                entry_text =
                                  (if existed then relPath @ js '': patched and saved.''
                                   else relPath @ js '': created and patched.'')\<rparr>],
                            trace := t6\<rparr>)))"

text \<open>Lines 202 to 261: one entry that is not skipped.\<close>

definition patchFile ::
  "'h host \<Rightarrow> uri \<Rightarrow> 'h event list \<Rightarrow> 'h loop_state \<Rightarrow> 'h ParsedDiff \<Rightarrow> jsstring \<Rightarrow>
   'h loop_state" where
  "patchFile h folder hist st filePatch relPath =
     (let targetUri = joinPath h folder relPath;
          (doc, originalText, existed) = openOriginal h (hist @ trace st) targetUri;
          t1 = trace st @ [OpenTextDocument targetUri];
          normalizedOriginal = replaceCRLF originalText;
          t2 = t1 @ [CallApplyPatch normalizedOriginal filePatch]
      in case Diff_applyPatch h normalizedOriginal filePatch of
           Inl err \<Rightarrow> caught st t2 relPath err
         | Inr None \<Rightarrow> failed st t2 (relPath @ js '': patch failed.'')
         | Inr (Some patchedText) \<Rightarrow>
             (let edit = buildEdit h targetUri doc originalText patchedText;
                  t3 = t2 @ [ApplyEdit edit]
              in case applyEdit h (hist @ t2) edit of
                   Inl err \<Rightarrow> caught st t3 relPath err
                 | Inr False \<Rightarrow> failed st t3 (relPath @ js '': could not apply edits.'')
                 | Inr True \<Rightarrow> saveAndReport h hist st t3 targetUri relPath doc existed))"

text \<open>Lines 195 to 262: the loop body and the loop.\<close>

definition processEntry ::
  "'h host \<Rightarrow> uri \<Rightarrow> 'h event list \<Rightarrow> 'h loop_state \<Rightarrow> 'h ParsedDiff \<Rightarrow> 'h loop_state" where
  "processEntry h folder hist st filePatch =
     (case relPathOf filePatch of
        None \<Rightarrow> st
      | Some relPath \<Rightarrow> patchFile h folder hist st filePatch relPath)"

fun applyLoop ::
  "'h host \<Rightarrow> uri \<Rightarrow> 'h event list \<Rightarrow> 'h ParsedDiff list \<Rightarrow> 'h loop_state \<Rightarrow> 'h loop_state" where
  "applyLoop h folder hist [] st = st"
| "applyLoop h folder hist (filePatch # rest) st =
     applyLoop h folder hist rest (processEntry h folder hist st filePatch)"

text \<open>
  Lines 166 to 268. The result is the list of calls this run makes; \<open>hist\<close> is what
  happened before it.
\<close>

definition applyPatch ::
  "'h host \<Rightarrow> PatchViewProvider \<Rightarrow> 'h event list \<Rightarrow> jsstring \<Rightarrow> 'h event list" where
  "applyPatch h this hist patchContent =
     (if trim patchContent = [] then [ShowWarningMessage (js ''No patch detected.'')]
      else case workspaceFolder0 h hist of
        None \<Rightarrow> [ShowErrorMessage (js ''Open a workspace folder first.'')]
      | Some folder \<Rightarrow>
          (case Diff_parsePatch h patchContent of
             Inl e \<Rightarrow>
               [CallParsePatch patchContent,
                ShowErrorMessage (js ''Cannot read patch: '' @ thrown_message e)]
           | Inr files \<Rightarrow>
               if files = [] then
                 [CallParsePatch patchContent,
                  ShowWarningMessage (js ''No files found in the patch.'')]
               else
                 (let st = applyLoop h folder hist files
                             \<lparr>ok = 0, ko = 0, messages = [],
                              trace = [CallParsePatch patchContent]\<rparr>
                  in trace st
                     @ [ShowResultPanel (ok st) (ko st) (messages st),
                        ClipboardWriteText []]
                     @ (case view this of
                          None \<Rightarrow> []
                        | Some v \<Rightarrow> [PostMessage v Clear]))))"

section \<open>The command and the input view\<close>

text \<open>Lines 11 to 14: the command \<^verbatim>\<open>gitPastePatch.apply\<close>.\<close>

definition gitPastePatch_apply ::
  "'h host \<Rightarrow> PatchViewProvider \<Rightarrow> 'h event list \<Rightarrow> 'h event list" where
  "gitPastePatch_apply h provider hist =
     (let patch = clipboard_readText h hist
      in [ClipboardReadText] @ applyPatch h provider (hist @ [ClipboardReadText]) patch)"

text \<open>Lines 152 to 154: the click handler of the Apply button, in the webview's script.\<close>

definition applyButton_click :: "jsstring \<Rightarrow> WebviewMessage" where
  "applyButton_click patchArea_value = \<lparr>msg_type = Apply, msg_text = Some patchArea_value\<rparr>"

definition pasteButton_click :: WebviewMessage where
  "pasteButton_click = \<lparr>msg_type = Paste, msg_text = None\<rparr>"

text \<open>
  Lines 49 to 70: \<^verbatim>\<open>resolveWebviewView\<close> stores the view and registers the message
  handler; \<open>None\<close> is a null message (\<^verbatim>\<open>msg?.type\<close>).
\<close>

definition resolveWebviewView :: "PatchViewProvider \<Rightarrow> nat \<Rightarrow> PatchViewProvider" where
  "resolveWebviewView this v = this\<lparr>view := Some v\<rparr>"

definition onDidReceiveMessage ::
  "'h host \<Rightarrow> PatchViewProvider \<Rightarrow> nat \<Rightarrow> 'h event list \<Rightarrow> WebviewMessage option \<Rightarrow>
   'h event list" where
  "onDidReceiveMessage h this v hist msg =
     (let t1 = (if map_option msg_type msg = Some Paste
                then [ClipboardReadText, PostMessage v (Fill (clipboard_readText h hist))]
                else [])
      in t1 @
         (case msg of
            None \<Rightarrow> []
          | Some m \<Rightarrow>
              (case msg_text m of
                 None \<Rightarrow> []
               | Some text_value \<Rightarrow>
                   if msg_type m = Apply then applyPatch h this (hist @ t1) text_value
                   else [])))"

section \<open>The results panel\<close>

text \<open>
  Lines 354 to 362 and 386 of \<^verbatim>\<open>resultsHtml\<close>: one list item per message, joined in
  order. The static style sheet and page frame around them are not modelled.
\<close>

definition iconHtml :: "ResultKind \<Rightarrow> jsstring" where
  "iconHtml k =
     (case k of
        Ok \<Rightarrow> js ''<span class=\"codicon codicon-check ok\"></span>''
      | New \<Rightarrow> js ''<span class=\"codicon codicon-new-file new\"></span>''
      | Fail \<Rightarrow> js ''<span class=\"codicon codicon-error ko\"></span>'')"

definition lineHtml :: "ResultEntry \<Rightarrow> jsstring" where
  "lineHtml m =
     js ''<li>\<newline>      <div class=\"line-icon\">'' @ iconHtml (kind m)
     @ js ''</div>\<newline>      <div class=\"line-text\">'' @ entry_text m
     @ js ''</div>\<newline>    </li>''"

fun join :: "jsstring \<Rightarrow> jsstring list \<Rightarrow> jsstring" where
  "join sep [] = []"
| "join sep [x] = x"
| "join sep (x # y # ys) = x @ sep @ join sep (y # ys)"

definition resultLines :: "ResultEntry list \<Rightarrow> jsstring" where
  "resultLines ms = join [] (map lineHtml ms)"

definition resultsBody :: "ResultEntry list \<Rightarrow> jsstring" where
  "resultsBody ms =
     (if length ms \<noteq> 0 then js ''<ul>'' @ resultLines ms @ js ''</ul>''
      else js ''<p class=\"muted\">No details available.</p>'')"

section \<open>Observing a run\<close>

text \<open>Projections of a list of calls: what was asked of the library and of the host.\<close>

fun patchCallOf :: "'h event \<Rightarrow> (jsstring \<times> 'h ParsedDiff) list" where
  "patchCallOf (CallApplyPatch s p) = [(s, p)]"
| "patchCallOf e = []"

definition patchCalls :: "'h event list \<Rightarrow> (jsstring \<times> 'h ParsedDiff) list" where
  "patchCalls tr = concat (map patchCallOf tr)"

fun parseCallOf :: "'h event \<Rightarrow> jsstring list" where
  "parseCallOf (CallParsePatch s) = [s]"
| "parseCallOf e = []"

definition parseCalls :: "'h event list \<Rightarrow> jsstring list" where
  "parseCalls tr = concat (map parseCallOf tr)"

fun editOf :: "'h event \<Rightarrow> WorkspaceEdit list" where
  "editOf (ApplyEdit ops) = [ops]"
| "editOf e = []"

definition edits :: "'h event list \<Rightarrow> WorkspaceEdit list" where
  "edits tr = concat (map editOf tr)"

fun panelOf :: "'h event \<Rightarrow> (nat \<times> nat \<times> ResultEntry list) list" where
  "panelOf (ShowResultPanel a b ms) = [(a, b, ms)]"
| "panelOf e = []"

definition panels :: "'h event list \<Rightarrow> (nat \<times> nat \<times> ResultEntry list) list" where
  "panels tr = concat (map panelOf tr)"

fun notificationOf :: "'h event \<Rightarrow> jsstring list" where
  "notificationOf (ShowWarningMessage s) = [s]"
| "notificationOf (ShowErrorMessage s) = [s]"
| "notificationOf e = []"

definition notifications :: "'h event list \<Rightarrow> jsstring list" where
  "notifications tr = concat (map notificationOf tr)"

fun clipboardWriteOf :: "'h event \<Rightarrow> jsstring list" where
  "clipboardWriteOf (ClipboardWriteText s) = [s]"
| "clipboardWriteOf e = []"

definition clipboardWrites :: "'h event list \<Rightarrow> jsstring list" where
  "clipboardWrites tr = concat (map clipboardWriteOf tr)"

fun postOf :: "'h event \<Rightarrow> (nat \<times> view_message) list" where
  "postOf (PostMessage v m) = [(v, m)]"
| "postOf e = []"

definition posts :: "'h event list \<Rightarrow> (nat \<times> view_message) list" where
  "posts tr = concat (map postOf tr)"

text \<open>
  What one entry works on: the text the inner \<^verbatim>\<open>try\<close> leaves in \<^verbatim>\<open>originalText\<close> and
  the workspace edit built for a patched text, after the past \<open>now\<close>.
\<close>

definition originalText :: "'h host \<Rightarrow> 'h event list \<Rightarrow> uri \<Rightarrow> jsstring" where
  "originalText h now targetUri = fst (snd (openOriginal h now targetUri))"

definition issuedEdit :: "'h host \<Rightarrow> 'h event list \<Rightarrow> uri \<Rightarrow> jsstring \<Rightarrow> WorkspaceEdit" where
  "issuedEdit h now targetUri patchedText =
     buildEdit h targetUri (fst (openOriginal h now targetUri))
       (originalText h now targetUri) patchedText"

text \<open>
  The exception, if any, that reaches the outer \<^verbatim>\<open>catch\<close> after a successful
  \<^verbatim>\<open>applyEdit\<close>: from re-opening a created file or from saving. \<open>now\<close> is the past up to
  and including the edit.
\<close>

definition laterThrow :: "'h host \<Rightarrow> 'h event list \<Rightarrow> uri \<Rightarrow> document option \<Rightarrow> thrown option" where
  "laterThrow h now targetUri doc =
     (case doc of
        Some d \<Rightarrow> (case save h now d of Inl e \<Rightarrow> Some e | Inr saved \<Rightarrow> None)
      | None \<Rightarrow>
          (case openTextDocument h now targetUri of
             Inl e \<Rightarrow> Some e
           | Inr d \<Rightarrow>
               (case save h (now @ [OpenTextDocument targetUri]) d of
                  Inl e \<Rightarrow> Some e
                | Inr saved \<Rightarrow> None)))"

text \<open>The texts an edit hands to the host.\<close>

fun edit_text :: "edit_op \<Rightarrow> jsstring list" where
  "edit_text (CreateFile u i) = []"
| "edit_text (Insert u p t) = [t]"
| "edit_text (Replace u r t) = [t]"

text \<open>The resources a call names.\<close>

fun edit_uri :: "edit_op \<Rightarrow> uri" where
  "edit_uri (CreateFile u i) = u"
| "edit_uri (Insert u p t) = u"
| "edit_uri (Replace u r t) = u"




text \<open>The calls a run may make once the guards have passed, all on resources of \<open>D\<close>.\<close>

fun runEventOn :: "uri set \<Rightarrow> 'h event \<Rightarrow> bool" where
  "runEventOn D (CallParsePatch s) = True"
| "runEventOn D (OpenTextDocument u) = (u \<in> D)"
| "runEventOn D (CallApplyPatch s p) = True"
| "runEventOn D (ApplyEdit ops) = (edit_uri ` set ops \<subseteq> D)"
| "runEventOn D (Save d) = (doc_uri d \<in> D)"
| "runEventOn D (ShowTextDocument d c f) = (doc_uri d \<in> D)"
| "runEventOn D e = False"

text \<open>
  One entry, one result: either a success (\<open>ok\<close> + 1 and an entry that is not a
  failure) or a failure (\<open>ko\<close> + 1 and a \<open>Fail\<close> entry); the text starts with the path.
\<close>

definition oneResult :: "'h loop_state \<Rightarrow> jsstring \<Rightarrow> 'h loop_state \<Rightarrow> bool" where
  "oneResult st r st' =
     ((ok st' = ok st + 1 \<and> ko st' = ko st
        \<and> (\<exists>k t. k \<noteq> Fail
              \<and> messages st' = messages st @ [\<lparr>kind = k, entry_text = r @ js '': '' @ t\<rparr>]))
      \<or> (ok st' = ok st \<and> ko st' = ko st + 1
        \<and> (\<exists>t. messages st' = messages st @ [\<lparr>kind = Fail, entry_text = r @ js '': '' @ t\<rparr>])))"

text \<open>The loop invariant of the counters.\<close>

definition accounted :: "'h loop_state \<Rightarrow> bool" where
  "accounted st =
     (ok st = length (filter (\<lambda>m. kind m = Ok \<or> kind m = New) (messages st))
      \<and> ko st = length (filter (\<lambda>m. kind m = Fail) (messages st))
      \<and> ok st + ko st = length (messages st))"

text \<open>An entry is reported by a message when the message starts with the entry's path.\<close>

definition reports :: "'h ParsedDiff \<Rightarrow> ResultEntry \<Rightarrow> bool" where
  "reports filePatch m =
     (case relPathOf filePatch of
        None \<Rightarrow> False
      | Some p \<Rightarrow> prefix (p @ js '': '') (entry_text m))"

definition skipped :: "'h ParsedDiff \<Rightarrow> bool" where
  "skipped filePatch = (relPathOf filePatch = None)"

section \<open>The path rule in the specification's words\<close>

text \<open>
  A name is present when it is defined and not the empty string. The target path is the
  new name when present, otherwise the old name; an absent result or \<^verbatim>\<open>/dev/null\<close> is
  skipped; otherwise a leading \<^verbatim>\<open>a/\<close> is removed, then a leading \<^verbatim>\<open>b/\<close>, then every
  backslash becomes a slash.
\<close>

definition spec_present :: "jsstring option \<Rightarrow> bool" where
  "spec_present a = (a \<noteq> None \<and> a \<noteq> Some [])"

definition spec_dropLeading :: "jsstring \<Rightarrow> jsstring \<Rightarrow> jsstring" where
  "spec_dropLeading p s = (if take (length p) s = p then drop (length p) s else s)"

definition spec_relPath :: "jsstring option \<Rightarrow> jsstring option \<Rightarrow> jsstring option" where
  "spec_relPath newName oldName =
     (let chosen = (if spec_present newName then newName else oldName)
      in if spec_present chosen \<and> chosen \<noteq> Some (js ''/dev/null'')
         then map_option
                (\<lambda>p. map (\<lambda>c. if c = 0x5C then 0x2F else c)
                       (spec_dropLeading (js ''b/'') (spec_dropLeading (js ''a/'') p)))
                chosen
         else None)"

section \<open>A sample host\<close>

text \<open>
  A small host and library used to run the model: the workspace \<^verbatim>\<open>ws\<close> holds one file
  \<^verbatim>\<open>ws/x\<close> with a CRLF line ending; a file created by an edit can be opened afterwards.
  The sample library fails on hunks 0, throws on hunks 1 and otherwise appends a line
  that ends in CRLF.
\<close>

definition sample_error :: thrown where
  "sample_error = \<lparr>thrown_message = js ''boom'', thrown_string = js ''Error: boom''\<rparr>"

definition sample_existing :: "nat ParsedDiff" where
  "sample_existing =
     \<lparr>oldFileName = Some (js ''a/x''), newFileName = Some (js ''b/x''), hunks = 2\<rparr>"

definition sample_deleted :: "nat ParsedDiff" where
  "sample_deleted =
     \<lparr>oldFileName = Some (js ''a/gone''), newFileName = Some (js ''/dev/null''), hunks = 2\<rparr>"

definition sample_new :: "nat ParsedDiff" where
  "sample_new =
     \<lparr>oldFileName = Some (js ''/dev/null''), newFileName = Some (js ''b/new''), hunks = 2\<rparr>"

definition sample_bad :: "nat ParsedDiff" where
  "sample_bad =
     \<lparr>oldFileName = Some (js ''a/bad''), newFileName = Some (js ''b/bad''), hunks = 0\<rparr>"

definition sample_files :: "nat ParsedDiff list" where
  "sample_files = [sample_existing, sample_deleted, sample_new, sample_bad]"

fun creates :: "uri \<Rightarrow> nat event \<Rightarrow> bool" where
  "creates u (ApplyEdit ops) = (CreateFile u True \<in> set ops)"
| "creates u e = False"

definition sample_host :: "nat host" where
  "sample_host =
     \<lparr>workspaceFolder0 = (\<lambda>hist. Some (js ''ws'')),
      joinPath = (\<lambda>folder p. folder @ js ''/'' @ p),
      Diff_parsePatch =
        (\<lambda>s. if s = js ''bad'' then Inl sample_error
              else if s = js ''none'' then Inr []
              else Inr sample_files),
      Diff_applyPatch =
        (\<lambda>s p. if hunks p = 0 then Inr None
                else if hunks p = 1 then Inl sample_error
                else Inr (Some (s @ js ''+'' @ [CR, LF]))),
      openTextDocument =
        (\<lambda>hist u. if u = js ''ws/x''
                   then Inr \<lparr>doc_uri = u, doc_text = js ''a'' @ [CR, LF] @ js ''b''\<rparr>
                   else if list_ex (creates u) hist then Inr \<lparr>doc_uri = u, doc_text = []\<rparr>
                   else Inl sample_error),
      positionAt = (\<lambda>d n. Position 0 n),
      applyEdit = (\<lambda>hist e. Inr True),
      save = (\<lambda>hist d. Inr True),
      visibleTextEditors = (\<lambda>hist. []),
      clipboard_readText = (\<lambda>hist. js ''patch'')\<rparr>"


definition sample_start :: "nat loop_state" where
  "sample_start = \<lparr>ok = 0, ko = 0, messages = [], trace = [CallParsePatch (js ''patch'')]\<rparr>"

text \<open>The same host when saving fails, and with no workspace folder open.\<close>

definition sample_host_save_fails :: "nat host" where
  "sample_host_save_fails = sample_host\<lparr>save := (\<lambda>hist d. Inl sample_error)\<rparr>"


definition sample_host_no_folder :: "nat host" where
  "sample_host_no_folder = sample_host\<lparr>workspaceFolder0 := (\<lambda>hist. None)\<rparr>"




section \<open>Strings\<close>

lemma CR_neq_LF: "CR \<noteq> LF"
  by (simp add: CR_def LF_def)

lemma replaceCRLF_occurrence:
  "replaceCRLF (a @ CR # LF # b) = replaceCRLF a @ LF # replaceCRLF b"
proof (induction a rule: replaceCRLF.induct)
  case 1
  show ?case by simp
next
  case (2 c)
  show ?case by (simp add: CR_neq_LF)
next
  case (3 c d cs)
  then show ?case by (cases cs) (auto simp: CR_neq_LF)
qed

lemma replaceCRLF_none: "\<not> sublist [CR, LF] s \<Longrightarrow> replaceCRLF s = s"
proof (induction s rule: replaceCRLF.induct)
  case 1
  show ?case by simp
next
  case (2 c)
  show ?case by simp
next
  case (3 c d cs)
  have notboth: "\<not> (c = CR \<and> d = LF)"
  proof
    assume "c = CR \<and> d = LF"
    then have "c # d # cs = [] @ [CR, LF] @ cs" by simp
    then have "sublist [CR, LF] (c # d # cs)" unfolding sublist_def by blast
    with 3 show False by simp
  qed
  have "\<not> sublist [CR, LF] (d # cs)"
    using 3(3) by (meson sublist_Cons_right)
  with 3 notboth show ?case by auto
qed

lemma trim_empty_iff: "trim s = [] \<longleftrightarrow> list_all isWhiteSpace s"
proof -
  have "dropWhile isWhiteSpace s \<noteq> [] \<Longrightarrow>
        \<exists>x\<in>set (dropWhile isWhiteSpace s). \<not> isWhiteSpace x"
    using hd_dropWhile[of isWhiteSpace s] hd_in_set by blast
  then have mid: "(\<forall>x\<in>set (dropWhile isWhiteSpace s). isWhiteSpace x) \<longleftrightarrow>
             dropWhile isWhiteSpace s = []"
    by (auto dest: set_dropWhileD)
  have "trim s = [] \<longleftrightarrow> (\<forall>x\<in>set (dropWhile isWhiteSpace s). isWhiteSpace x)"
    by (simp add: trim_def dropWhile_eq_Nil_conv)
  also have "\<dots> \<longleftrightarrow> dropWhile isWhiteSpace s = []"
    by (rule mid)
  also have "\<dots> \<longleftrightarrow> (\<forall>x\<in>set s. isWhiteSpace x)"
    by (simp add: dropWhile_eq_Nil_conv)
  finally show ?thesis
    by (simp add: list_all_iff)
qed

lemma spec_relPath_refines: "relPathOf fp = spec_relPath (newFileName fp) (oldFileName fp)"
proof -
  have two: "length (js ''a/'') = 2" "length (js ''b/'') = 2"
    by (simp_all add: js_def)
  have strip: "\<And>p s. length p = 2 \<Longrightarrow> stripPrefix p s = spec_dropLeading p s"
    by (auto simp: stripPrefix_def spec_dropLeading_def startsWith_def substring_def
                   prefix_def take_eq_Nil
             dest: arg_cong[where f = "take 2"])
      (metis append_take_drop_id)
  show ?thesis
    by (auto simp: relPathOf_def spec_relPath_def js_or_def truthy_def spec_present_def
                   strip two replaceBackslashes_def Let_def
             split: option.splits)
qed

section \<open>Projections\<close>

lemma patchCalls_Nil [simp]: "patchCalls [] = []"
  and patchCalls_Cons [simp]: "patchCalls (e # tr) = patchCallOf e @ patchCalls tr"
  and patchCalls_append [simp]: "patchCalls (tr @ tr') = patchCalls tr @ patchCalls tr'"
  by (simp_all add: patchCalls_def)

lemma parseCalls_Nil [simp]: "parseCalls [] = []"
  and parseCalls_Cons [simp]: "parseCalls (e # tr) = parseCallOf e @ parseCalls tr"
  and parseCalls_append [simp]: "parseCalls (tr @ tr') = parseCalls tr @ parseCalls tr'"
  by (simp_all add: parseCalls_def)

lemma edits_Nil [simp]: "edits [] = []"
  and edits_Cons [simp]: "edits (e # tr) = editOf e @ edits tr"
  and edits_append [simp]: "edits (tr @ tr') = edits tr @ edits tr'"
  by (simp_all add: edits_def)

lemma panels_Nil [simp]: "panels [] = []"
  and panels_Cons [simp]: "panels (e # tr) = panelOf e @ panels tr"
  and panels_append [simp]: "panels (tr @ tr') = panels tr @ panels tr'"
  by (simp_all add: panels_def)

lemma notifications_Nil [simp]: "notifications [] = []"
  and notifications_Cons [simp]: "notifications (e # tr) = notificationOf e @ notifications tr"
  and notifications_append [simp]:
    "notifications (tr @ tr') = notifications tr @ notifications tr'"
  by (simp_all add: notifications_def)

lemma clipboardWrites_Nil [simp]: "clipboardWrites [] = []"
  and clipboardWrites_Cons [simp]:
    "clipboardWrites (e # tr) = clipboardWriteOf e @ clipboardWrites tr"
  and clipboardWrites_append [simp]:
    "clipboardWrites (tr @ tr') = clipboardWrites tr @ clipboardWrites tr'"
  by (simp_all add: clipboardWrites_def)

lemma posts_Nil [simp]: "posts [] = []"
  and posts_Cons [simp]: "posts (e # tr) = postOf e @ posts tr"
  and posts_append [simp]: "posts (tr @ tr') = posts tr @ posts tr'"
  by (simp_all add: posts_def)

lemma runEventOn_mono: "D \<subseteq> D' \<Longrightarrow> runEventOn D e \<Longrightarrow> runEventOn D' e"
  by (cases e) auto

lemma runEvents_quiet:
  "\<forall>e\<in>set tr. runEventOn D e \<Longrightarrow>
     panels tr = [] \<and> notifications tr = [] \<and> clipboardWrites tr = [] \<and> posts tr = []"
proof (induction tr)
  case Nil
  show ?case by simp
next
  case (Cons e tr)
  then show ?case by (cases e) auto
qed

lemma runEvents_edits:
  "\<forall>e\<in>set tr. runEventOn D e \<Longrightarrow> ops \<in> set (edits tr) \<Longrightarrow> edit_uri ` set ops \<subseteq> D"
proof (induction tr)
  case Nil
  then show ?case by simp
next
  case (Cons e tr)
  then show ?case by (cases e) auto
qed


section \<open>One entry\<close>

lemma saveAndReport_extends:
  "\<exists>new. trace (saveAndReport h hist st sofar u r d ex) = sofar @ new
     \<and> patchCalls new = [] \<and> edits new = [] \<and> parseCalls new = []
     \<and> (\<forall>e\<in>set new.
           runEventOn
             (insert u ((case d of None \<Rightarrow> {} | Some x \<Rightarrow> {doc_uri x})
                \<union> {doc_uri x |x past. openTextDocument h past u = Inr x})) e)"
  by (auto simp: saveAndReport_def caught_def failed_def Let_def
           split: option.splits sum.splits prod.splits)

lemma parseCalls_saveAndReport [simp]:
  "parseCalls (trace (saveAndReport h hist st sofar u r d ex)) = parseCalls sofar"
  using saveAndReport_extends[of h hist st sofar u r d ex] by auto

lemma patchCalls_saveAndReport [simp]:
  "patchCalls (trace (saveAndReport h hist st sofar u r d ex)) = patchCalls sofar"
  using saveAndReport_extends[of h hist st sofar u r d ex] by auto

lemma edits_saveAndReport [simp]:
  "edits (trace (saveAndReport h hist st sofar u r d ex)) = edits sofar"
  using saveAndReport_extends[of h hist st sofar u r d ex] by auto

lemma saveAndReport_events:
  assumes "e \<in> set (trace (saveAndReport h hist st sofar u r d ex))"
    and "u \<in> D"
    and "case d of None \<Rightarrow> True | Some x \<Rightarrow> doc_uri x \<in> D"
    and "\<And>past x. openTextDocument h past u = Inr x \<Longrightarrow> doc_uri x \<in> D"
  shows "e \<in> set sofar \<or> runEventOn D e"
proof -
  obtain new where new: "trace (saveAndReport h hist st sofar u r d ex) = sofar @ new"
      "\<forall>e\<in>set new.
           runEventOn
             (insert u ((case d of None \<Rightarrow> {} | Some x \<Rightarrow> {doc_uri x})
                \<union> {doc_uri x |x past. openTextDocument h past u = Inr x})) e"
    using saveAndReport_extends[of h hist st sofar u r d ex] by blast
  have "insert u ((case d of None \<Rightarrow> {} | Some x \<Rightarrow> {doc_uri x})
                \<union> {doc_uri x |x past. openTextDocument h past u = Inr x}) \<subseteq> D"
    using assms(2-4) by (cases d) auto
  then have "\<forall>e\<in>set new. runEventOn D e"
    using new(2) runEventOn_mono by blast
  with new(1) assms(1) show ?thesis by auto
qed

lemma oneResult_failed: "oneResult st r (failed st tr (r @ js '': '' @ t))"
  by (simp add: oneResult_def failed_def)

lemma oneResult_caught: "oneResult st r (caught st tr r e)"
  by (simp add: caught_def oneResult_failed)

lemma oneResult_saveAndReport: "oneResult st r (saveAndReport h hist st sofar u r d ex)"
proof -
  have a: "r @ js '': patched and saved.'' = r @ js '': '' @ js ''patched and saved.''"
    and b: "r @ js '': created and patched.'' = r @ js '': '' @ js ''created and patched.''"
    by (simp_all add: js_def)
  have s: "\<And>k t tr. k \<noteq> Fail \<Longrightarrow>
      oneResult st r (st\<lparr>ok := Suc (ok st),
         messages := messages st @ [\<lparr>kind = k, entry_text = r @ js '': '' @ t\<rparr>], trace := tr\<rparr>)"
    by (auto simp: oneResult_def)
  show ?thesis
    unfolding saveAndReport_def Let_def a b
    by (simp add: oneResult_caught s split: option.splits sum.splits prod.splits)
qed

lemma saveAndReport_outcome:
  "case laterThrow h (hist @ sofar) u d of
     Some e \<Rightarrow>
       ok (saveAndReport h hist st sofar u r d ex) = ok st
       \<and> ko (saveAndReport h hist st sofar u r d ex) = ko st + 1
       \<and> messages (saveAndReport h hist st sofar u r d ex) =
           messages st @ [\<lparr>kind = Fail, entry_text = r @ js '': '' @ thrown_string e\<rparr>]
   | None \<Rightarrow>
       ok (saveAndReport h hist st sofar u r d ex) = ok st + 1
       \<and> ko (saveAndReport h hist st sofar u r d ex) = ko st
       \<and> messages (saveAndReport h hist st sofar u r d ex) =
           messages st @
             [\<lparr>kind = (if ex then Ok else New),
               entry_text = (if ex then r @ js '': patched and saved.''
                             else r @ js '': created and patched.'')\<rparr>]"
  by (auto simp: saveAndReport_def laterThrow_def caught_def failed_def Let_def
           split: option.splits sum.splits prod.splits)

lemma oneResult_patchFile: "oneResult st r (patchFile h folder hist st fp r)"
proof -
  have a: "r @ js '': patch failed.'' = r @ js '': '' @ js ''patch failed.''"
    and b: "r @ js '': could not apply edits.'' = r @ js '': '' @ js ''could not apply edits.''"
    by (simp_all add: js_def)
  show ?thesis
    unfolding patchFile_def Let_def a b
    by (simp add: oneResult_caught oneResult_failed oneResult_saveAndReport
             split: option.splits sum.splits prod.splits bool.splits)
qed

lemma originalText_cases:
  "originalText h now u =
     (case openTextDocument h now u of Inr d \<Rightarrow> doc_text d | Inl e \<Rightarrow> [])"
  by (simp add: originalText_def openOriginal_def split: sum.splits)

lemma issuedEdit_cases:
  "issuedEdit h now u c =
     (case openTextDocument h now u of
        Inr d \<Rightarrow>
          [Replace (doc_uri d)
             (Range (positionAt h d 0) (positionAt h d (length (doc_text d)))) c]
      | Inl e \<Rightarrow> [CreateFile u True, Insert u (Position 0 0) c])"
  by (simp add: issuedEdit_def originalText_def openOriginal_def buildEdit_def split: sum.splits)

lemma issuedEdit_text: "concat (map edit_text (issuedEdit h now u c)) = [c]"
  by (simp add: issuedEdit_cases split: sum.splits)

lemma issuedEdit_uri:
  "op \<in> set (issuedEdit h now u c) \<Longrightarrow>
     edit_uri op = u \<or> (\<exists>d. openTextDocument h now u = Inr d \<and> edit_uri op = doc_uri d)"
  by (auto simp: issuedEdit_cases split: sum.splits)

lemma patchFile_patchCalls:
  "patchCalls (trace (patchFile h folder hist st fp relPath)) =
     patchCalls (trace st) @
       [(replaceCRLF (originalText h (hist @ trace st) (joinPath h folder relPath)), fp)]"
  by (auto simp: patchFile_def originalText_def openOriginal_def caught_def failed_def Let_def
           split: option.splits sum.splits prod.splits bool.splits)

lemma patchFile_parseCalls:
  "parseCalls (trace (patchFile h folder hist st fp relPath)) = parseCalls (trace st)"
  by (auto simp: patchFile_def openOriginal_def caught_def failed_def Let_def
           split: option.splits sum.splits prod.splits bool.splits)

lemma patchFile_edits:
  "edits (trace (patchFile h folder hist st fp relPath)) =
     edits (trace st) @
       (case Diff_applyPatch h
               (replaceCRLF (originalText h (hist @ trace st) (joinPath h folder relPath))) fp of
          Inr (Some patched) \<Rightarrow>
            [issuedEdit h (hist @ trace st) (joinPath h folder relPath) patched]
        | _ \<Rightarrow> [])"
  by (auto simp: patchFile_def issuedEdit_def originalText_def openOriginal_def caught_def
                 failed_def Let_def
           split: option.splits sum.splits prod.splits bool.splits)

lemma patchFile_ok_library:
  assumes "ok (patchFile h folder hist st fp relPath) = ok st + 1"
  shows "\<exists>patched.
           Diff_applyPatch h
             (replaceCRLF (originalText h (hist @ trace st) (joinPath h folder relPath))) fp
             = Inr (Some patched)"
  using assms
  by (auto simp: patchFile_def originalText_def openOriginal_def caught_def failed_def Let_def
           split: option.splits sum.splits prod.splits bool.splits)

lemma patchFile_library_failed:
  assumes "Diff_applyPatch h
             (replaceCRLF (originalText h (hist @ trace st) (joinPath h folder relPath))) fp = res"
    and "res = Inr None \<or> (\<exists>e. res = Inl e)"
  shows "\<exists>t. patchFile h folder hist st fp relPath =
           st\<lparr>ko := ko st + 1,
              messages := messages st @ [\<lparr>kind = Fail, entry_text = relPath @ js '': '' @ t\<rparr>],
              trace := trace st @
                [OpenTextDocument (joinPath h folder relPath),
                 CallApplyPatch
                   (replaceCRLF (originalText h (hist @ trace st) (joinPath h folder relPath)))
                   fp]\<rparr>"
proof -
  have a: "relPath @ js '': patch failed.'' = relPath @ js '': '' @ js ''patch failed.''"
    by (simp add: js_def)
  show ?thesis
    using assms unfolding patchFile_def Let_def a
    by (auto simp: originalText_def openOriginal_def caught_def failed_def
             split: option.splits sum.splits prod.splits bool.splits)
qed

lemma patchFile_edit_refused:
  assumes "Diff_applyPatch h
             (replaceCRLF (originalText h (hist @ trace st) (joinPath h folder relPath))) fp
             = Inr (Some patched)"
    and "applyEdit h
           (hist @ trace st @
              [OpenTextDocument (joinPath h folder relPath),
               CallApplyPatch
                 (replaceCRLF (originalText h (hist @ trace st) (joinPath h folder relPath))) fp])
           (issuedEdit h (hist @ trace st) (joinPath h folder relPath) patched) = res"
    and "res = Inr False \<or> (\<exists>e. res = Inl e)"
  shows "ok (patchFile h folder hist st fp relPath) = ok st
       \<and> ko (patchFile h folder hist st fp relPath) = ko st + 1
       \<and> trace (patchFile h folder hist st fp relPath) =
           trace st @
             [OpenTextDocument (joinPath h folder relPath),
              CallApplyPatch
                (replaceCRLF (originalText h (hist @ trace st) (joinPath h folder relPath))) fp,
              ApplyEdit (issuedEdit h (hist @ trace st) (joinPath h folder relPath) patched)]"
  using assms
  by (auto simp: patchFile_def issuedEdit_def originalText_def openOriginal_def caught_def
                 failed_def Let_def
           split: option.splits sum.splits prod.splits bool.splits)

lemma patchFile_edit_applied:
  assumes "Diff_applyPatch h
             (replaceCRLF (originalText h (hist @ trace st) (joinPath h folder relPath))) fp
             = Inr (Some patched)"
    and "applyEdit h
           (hist @ trace st @
              [OpenTextDocument (joinPath h folder relPath),
               CallApplyPatch
                 (replaceCRLF (originalText h (hist @ trace st) (joinPath h folder relPath))) fp])
           (issuedEdit h (hist @ trace st) (joinPath h folder relPath) patched) = Inr True"
  shows "patchFile h folder hist st fp relPath =
           saveAndReport h hist st
             (trace st @
                [OpenTextDocument (joinPath h folder relPath),
                 CallApplyPatch
                   (replaceCRLF (originalText h (hist @ trace st) (joinPath h folder relPath))) fp,
                 ApplyEdit (issuedEdit h (hist @ trace st) (joinPath h folder relPath) patched)])
             (joinPath h folder relPath) relPath
             (fst (openOriginal h (hist @ trace st) (joinPath h folder relPath)))
             (snd (snd (openOriginal h (hist @ trace st) (joinPath h folder relPath))))"
  using assms
  by (auto simp: patchFile_def issuedEdit_def originalText_def Let_def
           split: option.splits sum.splits prod.splits bool.splits)

lemma patchFile_events:
  assumes "e \<in> set (trace (patchFile h folder hist st fp r))"
    and "joinPath h folder r \<in> D"
    and "\<And>past x. openTextDocument h past (joinPath h folder r) = Inr x \<Longrightarrow> doc_uri x \<in> D"
  shows "e \<in> set (trace st) \<or> runEventOn D e"
proof -
  let ?u = "joinPath h folder r"
  let ?now = "hist @ trace st"
  let ?attempt = "[OpenTextDocument ?u,
                   CallApplyPatch (replaceCRLF (originalText h ?now ?u)) fp]"
  have att: "\<forall>e\<in>set ?attempt. runEventOn D e"
    using assms(2) by simp
  have doc: "case fst (openOriginal h ?now ?u) of None \<Rightarrow> True | Some x \<Rightarrow> doc_uri x \<in> D"
    using assms(3)[of ?now] by (auto simp: openOriginal_def split: sum.splits)
  have ed: "\<And>c. runEventOn D (ApplyEdit (issuedEdit h ?now ?u c))"
    using assms(2) assms(3)[of ?now] by (auto simp: issuedEdit_cases split: sum.splits)
  consider
      (libfail) "Diff_applyPatch h (replaceCRLF (originalText h ?now ?u)) fp = Inr None
                 \<or> (\<exists>x. Diff_applyPatch h (replaceCRLF (originalText h ?now ?u)) fp = Inl x)"
    | (lib) patched where
        "Diff_applyPatch h (replaceCRLF (originalText h ?now ?u)) fp = Inr (Some patched)"
  proof (cases "Diff_applyPatch h (replaceCRLF (originalText h ?now ?u)) fp")
    case (Inl x)
    then show ?thesis using that(1) by blast
  next
    case (Inr res)
    then show ?thesis using that by (cases res) auto
  qed
  then show ?thesis
  proof cases
    case libfail
    from patchFile_library_failed[OF refl libfail]
    have "trace (patchFile h folder hist st fp r) = trace st @ ?attempt"
      by auto
    with assms(1) att show ?thesis by auto
  next
    case lib
    let ?edit = "issuedEdit h ?now ?u patched"
    consider
        (refused) "applyEdit h (?now @ ?attempt) ?edit = Inr False
                   \<or> (\<exists>x. applyEdit h (?now @ ?attempt) ?edit = Inl x)"
      | (applied) "applyEdit h (?now @ ?attempt) ?edit = Inr True"
      by (cases "applyEdit h (?now @ ?attempt) ?edit") auto
    then show ?thesis
    proof cases
      case refused
      from patchFile_edit_refused[OF lib _ refused]
      have "trace (patchFile h folder hist st fp r) = trace st @ ?attempt @ [ApplyEdit ?edit]"
        by simp
      with assms(1) att ed show ?thesis by auto
    next
      case applied
      have "patchFile h folder hist st fp r =
              saveAndReport h hist st (trace st @ ?attempt @ [ApplyEdit ?edit]) ?u r
                (fst (openOriginal h ?now ?u)) (snd (snd (openOriginal h ?now ?u)))"
        using patchFile_edit_applied[OF lib] applied by simp
      with assms(1)
      have "e \<in> set (trace st @ ?attempt @ [ApplyEdit ?edit]) \<or> runEventOn D e"
        using saveAndReport_events[where D = D and h = h and u = ?u
            and d = "fst (openOriginal h ?now ?u)"] assms(2) doc assms(3)
        by metis
      with att ed show ?thesis by auto
    qed
  qed
qed

section \<open>The loop\<close>

lemma processEntry_skipped: "skipped fp \<Longrightarrow> processEntry h folder hist st fp = st"
  by (simp add: processEntry_def skipped_def)

lemma processEntry_accounted:
  assumes "accounted st"
  shows "accounted (processEntry h folder hist st fp)"
proof (cases "relPathOf fp")
  case None
  with assms show ?thesis by (simp add: processEntry_def)
next
  case (Some r)
  have "oneResult st r (patchFile h folder hist st fp r)"
    by (rule oneResult_patchFile)
  moreover have "\<And>k. k \<noteq> Fail \<Longrightarrow> k = Ok \<or> k = New"
    by (case_tac k) simp_all
  ultimately show ?thesis
    using assms Some by (auto simp: processEntry_def oneResult_def accounted_def)
qed

lemma applyLoop_append:
  "applyLoop h folder hist (xs @ ys) st =
     applyLoop h folder hist ys (applyLoop h folder hist xs st)"
  by (induction xs arbitrary: st) simp_all

lemma applyLoop_accounted:
  "accounted st \<Longrightarrow> accounted (applyLoop h folder hist files st)"
  by (induction files arbitrary: st) (simp_all add: processEntry_accounted)

lemma applyLoop_patchCalls:
  "map snd (patchCalls (trace (applyLoop h folder hist files st))) =
     map snd (patchCalls (trace st)) @ filter (\<lambda>fp. \<not> skipped fp) files"
proof (induction files arbitrary: st)
  case Nil
  show ?case by simp
next
  case (Cons fp files)
  show ?case
    by (cases "relPathOf fp")
       (simp_all add: Cons.IH processEntry_def skipped_def patchFile_patchCalls)
qed

lemma applyLoop_parseCalls:
  "parseCalls (trace (applyLoop h folder hist files st)) = parseCalls (trace st)"
proof (induction files arbitrary: st)
  case Nil
  show ?case by simp
next
  case (Cons fp files)
  show ?case
    by (cases "relPathOf fp") (simp_all add: Cons.IH processEntry_def patchFile_parseCalls)
qed

lemma applyLoop_messages:
  "\<exists>ms. messages (applyLoop h folder hist files st) = messages st @ ms
       \<and> list_all2 reports (filter (\<lambda>fp. \<not> skipped fp) files) ms"
proof (induction files arbitrary: st)
  case Nil
  show ?case by simp
next
  case (Cons fp files)
  show ?case
  proof (cases "relPathOf fp")
    case None
    with Cons.IH[of st] show ?thesis
      by (simp add: processEntry_def skipped_def)
  next
    case (Some r)
    have "oneResult st r (patchFile h folder hist st fp r)"
      by (rule oneResult_patchFile)
    then obtain m where m: "messages (patchFile h folder hist st fp r) = messages st @ [m]"
        "prefix (r @ js '': '') (entry_text m)"
      by (auto simp: oneResult_def)
    from Cons.IH[of "patchFile h folder hist st fp r"] obtain ms where
      ms: "messages (applyLoop h folder hist files (patchFile h folder hist st fp r))
             = messages (patchFile h folder hist st fp r) @ ms"
          "list_all2 reports (filter (\<lambda>fp. \<not> skipped fp) files) ms"
      by blast
    from m(2) Some have "reports fp m"
      by (simp add: reports_def)
    with m(1) ms Some show ?thesis
      by (simp add: processEntry_def skipped_def)
  qed
qed

lemma applyLoop_events:
  assumes "\<forall>fp\<in>set files. \<forall>p. relPathOf fp = Some p \<longrightarrow>
             joinPath h folder p \<in> D
             \<and> (\<forall>past x. openTextDocument h past (joinPath h folder p) = Inr x \<longrightarrow> doc_uri x \<in> D)"
    and "e \<in> set (trace (applyLoop h folder hist files st))"
  shows "e \<in> set (trace st) \<or> runEventOn D e"
  using assms
proof (induction files arbitrary: st)
  case Nil
  then show ?case by simp
next
  case (Cons fp files)
  from Cons have step: "e \<in> set (trace (processEntry h folder hist st fp)) \<or> runEventOn D e"
    by simp
  show ?case
  proof (cases "relPathOf fp")
    case None
    with step show ?thesis by (simp add: processEntry_def)
  next
    case (Some r)
    then have a: "joinPath h folder r \<in> D"
      and b: "\<And>past x. openTextDocument h past (joinPath h folder r) = Inr x \<Longrightarrow> doc_uri x \<in> D"
      using Cons.prems(1) by simp_all
    from step Some show ?thesis
      using patchFile_events[OF _ a b, of e hist st fp] by (auto simp: processEntry_def)
  qed
qed



section \<open>A whole run\<close>



lemma applyPatch_run:
  assumes "trim patch \<noteq> []" and "workspaceFolder0 h hist = Some folder"
    and "Diff_parsePatch h patch = Inr files" and "files \<noteq> []"
  shows "applyPatch h this hist patch =
           trace (applyLoop h folder hist files
                    \<lparr>ok = 0, ko = 0, messages = [], trace = [CallParsePatch patch]\<rparr>)
           @ [ShowResultPanel
                (ok (applyLoop h folder hist files
                       \<lparr>ok = 0, ko = 0, messages = [], trace = [CallParsePatch patch]\<rparr>))
                (ko (applyLoop h folder hist files
                       \<lparr>ok = 0, ko = 0, messages = [], trace = [CallParsePatch patch]\<rparr>))
                (messages (applyLoop h folder hist files
                       \<lparr>ok = 0, ko = 0, messages = [], trace = [CallParsePatch patch]\<rparr>)),
              ClipboardWriteText []]
           @ (case view this of None \<Rightarrow> [] | Some v \<Rightarrow> [PostMessage v Clear])"
  using assms by (simp add: applyPatch_def Let_def)

lemma applyPatch_loop_quiet:
  assumes "e \<in> set (trace (applyLoop h folder hist files
                    \<lparr>ok = 0, ko = 0, messages = [], trace = [CallParsePatch patch]\<rparr>))"
  shows "runEventOn UNIV e"
  using applyLoop_events[of files h folder UNIV e hist, OF _ assms] by auto









lemma join_empty_separator: "join [] xs = concat xs"
  by (induction "[] :: jsstring" xs rule: join.induct) simp_all

section \<open>The claims\<close>

text \<open>
  The loop is \<open>applyLoop\<close>, which runs \<open>processEntry\<close> on each entry in turn, starting
  each entry in the state the previous one left. A statement about \<open>processEntry\<close> in an
  arbitrary state \<open>st\<close> after an arbitrary past \<open>hist\<close> therefore holds for every entry
  of every run.
\<close>

text \<open>
  C1. For every entry that is applied successfully (the success counter goes up), the
  library returned a patched text for the CRLF-normalized original text (the empty text
  when the document could not be opened), and the one workspace edit issued for the
  entry carries exactly that text and no other: it replaces the whole range of the opened
  document, or creates the file and inserts the text at its start.
\<close>

theorem applied_content_is_library_output:
  assumes "relPathOf fp = Some relPath"
    and "ok (processEntry h folder hist st fp) = ok st + 1"
  shows "\<exists>patched.
           Diff_applyPatch h
             (replaceCRLF (originalText h (hist @ trace st) (joinPath h folder relPath))) fp
             = Inr (Some patched)
         \<and> edits (trace (processEntry h folder hist st fp)) =
             edits (trace st) @ [issuedEdit h (hist @ trace st) (joinPath h folder relPath) patched]
         \<and> concat (map edit_text
                     (issuedEdit h (hist @ trace st) (joinPath h folder relPath) patched))
             = [patched]
         \<and> originalText h (hist @ trace st) (joinPath h folder relPath) =
             (case openTextDocument h (hist @ trace st) (joinPath h folder relPath) of
                Inr d \<Rightarrow> doc_text d | Inl e \<Rightarrow> [])
         \<and> issuedEdit h (hist @ trace st) (joinPath h folder relPath) patched =
             (case openTextDocument h (hist @ trace st) (joinPath h folder relPath) of
                Inr d \<Rightarrow>
                  [Replace (doc_uri d)
                     (Range (positionAt h d 0) (positionAt h d (length (doc_text d))))
                     patched]
              | Inl e \<Rightarrow>
                  [CreateFile (joinPath h folder relPath) True,
                   Insert (joinPath h folder relPath) (Position 0 0) patched])"
proof -
  have pe: "processEntry h folder hist st fp = patchFile h folder hist st fp relPath"
    using assms(1) by (simp add: processEntry_def)
  from assms(2) obtain patched where
    lib: "Diff_applyPatch h
            (replaceCRLF (originalText h (hist @ trace st) (joinPath h folder relPath))) fp
            = Inr (Some patched)"
    unfolding pe using patchFile_ok_library by blast
  have "edits (trace (patchFile h folder hist st fp relPath)) =
          edits (trace st) @ [issuedEdit h (hist @ trace st) (joinPath h folder relPath) patched]"
    using lib by (simp add: patchFile_edits)
  with lib show ?thesis
    unfolding pe using issuedEdit_text originalText_cases issuedEdit_cases by blast
qed

theorem applied_content_is_library_output_witness:
  "relPathOf sample_existing = Some (js ''x'')
   \<and> ok (processEntry sample_host (js ''ws'') [] sample_start sample_existing)
       = ok sample_start + 1
   \<and> edits (trace (processEntry sample_host (js ''ws'') [] sample_start sample_existing)) =
       [[Replace (js ''ws/x'') (Range (Position 0 0) (Position 0 4))
           (js ''a'' @ [LF] @ js ''b+'' @ [CR, LF])]]"
proof -
  have h1: "relPathOf sample_existing = Some (js ''x'')"
    by code_simp
  have h2: "ok (processEntry sample_host (js ''ws'') [] sample_start sample_existing)
              = ok sample_start + 1"
    by code_simp
  have lib: "Diff_applyPatch sample_host
               (replaceCRLF (originalText sample_host ([] @ trace sample_start)
                  (joinPath sample_host (js ''ws'') (js ''x'')))) sample_existing
               = Inr (Some (js ''a'' @ [LF] @ js ''b+'' @ [CR, LF]))"
    by code_simp
  from applied_content_is_library_output[OF h1 h2] obtain patched where
    p: "Diff_applyPatch sample_host
               (replaceCRLF (originalText sample_host ([] @ trace sample_start)
                  (joinPath sample_host (js ''ws'') (js ''x'')))) sample_existing
          = Inr (Some patched)"
    and e: "edits (trace (processEntry sample_host (js ''ws'') [] sample_start sample_existing)) =
             edits (trace sample_start) @
               [issuedEdit sample_host ([] @ trace sample_start)
                  (joinPath sample_host (js ''ws'') (js ''x'')) patched]"
    by blast
  from p lib have pv: "patched = js ''a'' @ [LF] @ js ''b+'' @ [CR, LF]"
    by (simp only: sum.inject option.inject)
  have "edits (trace (processEntry sample_host (js ''ws'') [] sample_start sample_existing)) =
             edits (trace sample_start) @
               [issuedEdit sample_host ([] @ trace sample_start)
                  (joinPath sample_host (js ''ws'') (js ''x''))
                  (js ''a'' @ [LF] @ js ''b+'' @ [CR, LF])]"
    using e unfolding pv .
  also have "\<dots> = [[Replace (js ''ws/x'') (Range (Position 0 0) (Position 0 4))
                       (js ''a'' @ [LF] @ js ''b+'' @ [CR, LF])]]"
    by code_simp
  finally show ?thesis
    using h1 h2 by blast
qed

text \<open>
  C2. For every entry that is not skipped, the library's applyPatch is called with the
  original text in which every occurrence of CR LF has been replaced by LF, and with the
  parsed entry itself. The replacement is characterised by its two laws: it turns each
  occurrence into LF, and it leaves a text without an occurrence alone. The patch text
  reaches the parser as it was given, and a text returned by the library reaches the
  workspace edit as it was returned.
\<close>

theorem original_text_is_normalized_for_the_library:
  assumes "relPathOf fp = Some relPath"
  shows "patchCalls (trace (processEntry h folder hist st fp)) =
           patchCalls (trace st) @
             [(replaceCRLF (originalText h (hist @ trace st) (joinPath h folder relPath)), fp)]
         \<and> originalText h (hist @ trace st) (joinPath h folder relPath) =
             (case openTextDocument h (hist @ trace st) (joinPath h folder relPath) of
                Inr d \<Rightarrow> doc_text d | Inl e \<Rightarrow> [])
         \<and> (\<forall>a b. replaceCRLF (a @ CR # LF # b) = replaceCRLF a @ LF # replaceCRLF b)
         \<and> (\<forall>s. \<not> sublist [CR, LF] s \<longrightarrow> replaceCRLF s = s)
         \<and> (\<forall>patched.
               Diff_applyPatch h
                 (replaceCRLF (originalText h (hist @ trace st) (joinPath h folder relPath))) fp
                 = Inr (Some patched) \<longrightarrow>
               concat (map edit_text
                         (concat (drop (length (edits (trace st)))
                                    (edits (trace (processEntry h folder hist st fp))))))
                 = [patched])
         \<and> parseCalls (applyPatch h this hist patch) =
             (if trim patch = [] \<or> workspaceFolder0 h hist = None then [] else [patch])"
proof -
  have pe: "processEntry h folder hist st fp = patchFile h folder hist st fp relPath"
    using assms by (simp add: processEntry_def)
  have calls: "patchCalls (trace (processEntry h folder hist st fp)) =
           patchCalls (trace st) @
             [(replaceCRLF (originalText h (hist @ trace st) (joinPath h folder relPath)), fp)]"
    unfolding pe by (rule patchFile_patchCalls)
  have out: "\<forall>patched.
               Diff_applyPatch h
                 (replaceCRLF (originalText h (hist @ trace st) (joinPath h folder relPath))) fp
                 = Inr (Some patched) \<longrightarrow>
               concat (map edit_text
                         (concat (drop (length (edits (trace st)))
                                    (edits (trace (processEntry h folder hist st fp))))))
                 = [patched]"
    unfolding pe by (simp add: patchFile_edits issuedEdit_text)
  have parse: "parseCalls (applyPatch h this hist patch) =
             (if trim patch = [] \<or> workspaceFolder0 h hist = None then [] else [patch])"
    by (simp add: applyPatch_def applyLoop_parseCalls Let_def
             split: option.splits sum.splits)
  from calls out parse show ?thesis
    using originalText_cases replaceCRLF_occurrence replaceCRLF_none by blast
qed

theorem original_text_is_normalized_for_the_library_witness:
  "relPathOf sample_existing = Some (js ''x'')
   \<and> openTextDocument sample_host ([] @ trace sample_start) (js ''ws/x'')
       = Inr \<lparr>doc_uri = js ''ws/x'', doc_text = js ''a'' @ [CR, LF] @ js ''b''\<rparr>
   \<and> patchCalls (trace (processEntry sample_host (js ''ws'') [] sample_start sample_existing)) =
       [(js ''a'' @ [LF] @ js ''b'', sample_existing)]
   \<and> parseCalls (applyPatch sample_host \<lparr>view = None\<rparr> [] (js ''patch'')) = [js ''patch'']"
proof -
  have h1: "relPathOf sample_existing = Some (js ''x'')"
    by code_simp
  have o: "openTextDocument sample_host ([] @ trace sample_start) (js ''ws/x'')
             = Inr \<lparr>doc_uri = js ''ws/x'', doc_text = js ''a'' @ [CR, LF] @ js ''b''\<rparr>"
    by code_simp
  note t = original_text_is_normalized_for_the_library[OF h1,
      of sample_host "js ''ws''" "[]" sample_start "\<lparr>view = None\<rparr>" "js ''patch''"]
  from t have "patchCalls (trace (processEntry sample_host (js ''ws'') [] sample_start sample_existing)) =
           patchCalls (trace sample_start) @
             [(replaceCRLF (originalText sample_host ([] @ trace sample_start)
                 (joinPath sample_host (js ''ws'') (js ''x''))), sample_existing)]"
    by blast
  also have "\<dots> = [(js ''a'' @ [LF] @ js ''b'', sample_existing)]"
    by code_simp
  finally have c: "patchCalls (trace (processEntry sample_host (js ''ws'') [] sample_start sample_existing)) =
       [(js ''a'' @ [LF] @ js ''b'', sample_existing)]" .
  from t have "parseCalls (applyPatch sample_host \<lparr>view = None\<rparr> [] (js ''patch'')) =
             (if trim (js ''patch'') = [] \<or> workspaceFolder0 sample_host [] = None then []
              else [js ''patch''])"
    by blast
  also have "\<dots> = [js ''patch'']"
    by code_simp
  finally show ?thesis
    using h1 o c by blast
qed

text \<open>
  C3, as the code has it. For every entry that is not skipped the library's applyPatch
  is called exactly once. If it returns false or throws, the failure counter goes up by
  one, one \<open>Fail\<close> entry for the file is appended, no workspace edit is issued and
  nothing else changes. If the library returns a patched text, the workspace edit is
  issued whatever happens afterwards: when applyEdit returns false or throws, or when
  re-opening the created file or saving throws, the entry is counted as one failure with
  one \<open>Fail\<close> entry all the same; otherwise it is one success. A failure to open the
  original document is no failure of the entry: its original text is empty. In every
  case the entry ends with exactly one result whose text starts with the path, and the
  loop goes on with the next entry from the state the entry left.
\<close>

theorem failure_is_counted_once:
  assumes "relPathOf fp = Some relPath"
  shows
    "let target = joinPath h folder relPath;
         now = hist @ trace st;
         normalized = replaceCRLF (originalText h now target);
         attempt = [OpenTextDocument target, CallApplyPatch normalized fp];
         st' = processEntry h folder hist st fp
     in patchCalls (trace st') = patchCalls (trace st) @ [(normalized, fp)]
        \<and> originalText h now target =
            (case openTextDocument h now target of Inr d \<Rightarrow> doc_text d | Inl e \<Rightarrow> [])
        \<and> ((Diff_applyPatch h normalized fp = Inr None
             \<or> (\<exists>e. Diff_applyPatch h normalized fp = Inl e)) \<longrightarrow>
            (\<exists>t. st' = st\<lparr>ko := ko st + 1,
                          messages := messages st
                            @ [\<lparr>kind = Fail, entry_text = relPath @ js '': '' @ t\<rparr>],
                          trace := trace st @ attempt\<rparr>)
            \<and> edits (trace st') = edits (trace st))
        \<and> (\<forall>patched. Diff_applyPatch h normalized fp = Inr (Some patched) \<longrightarrow>
              edits (trace st') = edits (trace st) @ [issuedEdit h now target patched]
              \<and> ((applyEdit h (now @ attempt) (issuedEdit h now target patched) = Inr False
                   \<or> (\<exists>e. applyEdit h (now @ attempt) (issuedEdit h now target patched) = Inl e))
                  \<longrightarrow> ok st' = ok st \<and> ko st' = ko st + 1)
              \<and> (applyEdit h (now @ attempt) (issuedEdit h now target patched) = Inr True \<longrightarrow>
                   (case laterThrow h
                           (now @ attempt @ [ApplyEdit (issuedEdit h now target patched)])
                           target (fst (openOriginal h now target)) of
                      Some e \<Rightarrow>
                        ok st' = ok st \<and> ko st' = ko st + 1
                        \<and> messages st' = messages st
                              @ [\<lparr>kind = Fail,
                                  entry_text = relPath @ js '': '' @ thrown_string e\<rparr>]
                    | None \<Rightarrow> ok st' = ok st + 1 \<and> ko st' = ko st)))
        \<and> oneResult st relPath st'
        \<and> applyLoop h folder hist (fp # rest) st = applyLoop h folder hist rest st'"
proof -
  let ?target = "joinPath h folder relPath"
  let ?now = "hist @ trace st"
  let ?norm = "replaceCRLF (originalText h ?now ?target)"
  let ?attempt = "[OpenTextDocument ?target, CallApplyPatch ?norm fp]"
  let ?res = "processEntry h folder hist st fp"
  have pe: "?res = patchFile h folder hist st fp relPath"
    using assms by (simp add: processEntry_def)
  have calls: "patchCalls (trace ?res) = patchCalls (trace st) @ [(?norm, fp)]"
    unfolding pe by (rule patchFile_patchCalls)
  have orig: "originalText h ?now ?target =
            (case openTextDocument h ?now ?target of Inr d \<Rightarrow> doc_text d | Inl e \<Rightarrow> [])"
    by (rule originalText_cases)
  have libfail: "(Diff_applyPatch h ?norm fp = Inr None
             \<or> (\<exists>e. Diff_applyPatch h ?norm fp = Inl e)) \<longrightarrow>
            (\<exists>t. ?res = st\<lparr>ko := ko st + 1,
                          messages := messages st
                            @ [\<lparr>kind = Fail, entry_text = relPath @ js '': '' @ t\<rparr>],
                          trace := trace st @ ?attempt\<rparr>)
            \<and> edits (trace ?res) = edits (trace st)"
    unfolding pe
    using patchFile_library_failed[of h hist st folder relPath fp, OF refl]
    by (auto simp: patchFile_edits)
  have later: "\<forall>patched. Diff_applyPatch h ?norm fp = Inr (Some patched) \<longrightarrow>
              edits (trace ?res) = edits (trace st) @ [issuedEdit h ?now ?target patched]
              \<and> ((applyEdit h (?now @ ?attempt) (issuedEdit h ?now ?target patched) = Inr False
                   \<or> (\<exists>e. applyEdit h (?now @ ?attempt) (issuedEdit h ?now ?target patched) = Inl e))
                  \<longrightarrow> ok ?res = ok st \<and> ko ?res = ko st + 1)
              \<and> (applyEdit h (?now @ ?attempt) (issuedEdit h ?now ?target patched) = Inr True \<longrightarrow>
                   (case laterThrow h
                           (?now @ ?attempt @ [ApplyEdit (issuedEdit h ?now ?target patched)])
                           ?target (fst (openOriginal h ?now ?target)) of
                      Some e \<Rightarrow>
                        ok ?res = ok st \<and> ko ?res = ko st + 1
                        \<and> messages ?res = messages st
                              @ [\<lparr>kind = Fail,
                                  entry_text = relPath @ js '': '' @ thrown_string e\<rparr>]
                    | None \<Rightarrow> ok ?res = ok st + 1 \<and> ko ?res = ko st))"
  proof (intro allI impI conjI)
    fix patched
    assume lib: "Diff_applyPatch h ?norm fp = Inr (Some patched)"
    show "edits (trace ?res) = edits (trace st) @ [issuedEdit h ?now ?target patched]"
      unfolding pe using lib by (simp add: patchFile_edits)
    {
      assume "applyEdit h (?now @ ?attempt) (issuedEdit h ?now ?target patched) = Inr False
                   \<or> (\<exists>e. applyEdit h (?now @ ?attempt) (issuedEdit h ?now ?target patched) = Inl e)"
      with patchFile_edit_refused[of h hist st folder relPath fp patched, OF lib _ this]
      show "ok ?res = ok st" and "ko ?res = ko st + 1"
        unfolding pe by simp_all
    }
    {
      assume ap: "applyEdit h (?now @ ?attempt) (issuedEdit h ?now ?target patched) = Inr True"
      have "?res = saveAndReport h hist st
             (trace st @ ?attempt @ [ApplyEdit (issuedEdit h ?now ?target patched)])
             ?target relPath (fst (openOriginal h ?now ?target))
             (snd (snd (openOriginal h ?now ?target)))"
        unfolding pe using patchFile_edit_applied[of h hist st folder relPath fp patched] lib ap
        by simp
      then show "case laterThrow h
                           (?now @ ?attempt @ [ApplyEdit (issuedEdit h ?now ?target patched)])
                           ?target (fst (openOriginal h ?now ?target)) of
                      Some e \<Rightarrow>
                        ok ?res = ok st \<and> ko ?res = ko st + 1
                        \<and> messages ?res = messages st
                              @ [\<lparr>kind = Fail,
                                  entry_text = relPath @ js '': '' @ thrown_string e\<rparr>]
                    | None \<Rightarrow> ok ?res = ok st + 1 \<and> ko ?res = ko st"
        using saveAndReport_outcome[where h = h and hist = hist and st = st and r = relPath
            and sofar = "trace st @ ?attempt @ [ApplyEdit (issuedEdit h ?now ?target patched)]"
            and u = ?target and d = "fst (openOriginal h ?now ?target)"
            and ex = "snd (snd (openOriginal h ?now ?target))"]
        by (simp split: option.splits)
    }
  qed
  have one: "oneResult st relPath ?res"
    unfolding pe by (rule oneResult_patchFile)
  from calls orig libfail later one show ?thesis
    unfolding Let_def by simp
qed

theorem failure_is_counted_once_witness:
  "relPathOf sample_bad = Some (js ''bad'')
   \<and> Diff_applyPatch sample_host
        (replaceCRLF (originalText sample_host ([] @ trace sample_start)
           (joinPath sample_host (js ''ws'') (js ''bad'')))) sample_bad = Inr None
   \<and> edits (trace (processEntry sample_host (js ''ws'') [] sample_start sample_bad)) = []
   \<and> ko (processEntry sample_host (js ''ws'') [] sample_start sample_bad) = 1
   \<and> messages (processEntry sample_host (js ''ws'') [] sample_start sample_bad) =
       [\<lparr>kind = Fail, entry_text = js ''bad: patch failed.''\<rparr>]"
proof -
  have h1: "relPathOf sample_bad = Some (js ''bad'')"
    by code_simp
  have lib: "Diff_applyPatch sample_host
        (replaceCRLF (originalText sample_host ([] @ trace sample_start)
           (joinPath sample_host (js ''ws'') (js ''bad'')))) sample_bad = Inr None"
    by code_simp
  from failure_is_counted_once[OF h1, where h = sample_host and hist = "[]"
      and st = sample_start and folder = "js ''ws''", unfolded Let_def] lib
  have "edits (trace (processEntry sample_host (js ''ws'') [] sample_start sample_bad))
          = edits (trace sample_start)"
    by blast
  also have "\<dots> = []"
    by code_simp
  finally have e: "edits (trace (processEntry sample_host (js ''ws'') [] sample_start sample_bad)) = []" .
  have k: "ko (processEntry sample_host (js ''ws'') [] sample_start sample_bad) = 1"
    by code_simp
  have m: "messages (processEntry sample_host (js ''ws'') [] sample_start sample_bad) =
       [\<lparr>kind = Fail, entry_text = js ''bad: patch failed.''\<rparr>]"
    by code_simp
  from h1 lib e k m show ?thesis by blast
qed

text \<open>
  C3 as stated fails: an exception raised while the entry is handled, here by saving
  after the edit has been applied, is counted as a failure although the file edit has
  been issued.
\<close>

theorem failure_after_edit_counterexample:
  "relPathOf sample_existing = Some (js ''x'')
   \<and> save sample_host_save_fails
        [CallParsePatch (js ''patch''), OpenTextDocument (js ''ws/x''),
         CallApplyPatch (js ''a'' @ [LF] @ js ''b'') sample_existing,
         ApplyEdit [Replace (js ''ws/x'') (Range (Position 0 0) (Position 0 4))
                      (js ''a'' @ [LF] @ js ''b+'' @ [CR, LF])]]
        \<lparr>doc_uri = js ''ws/x'', doc_text = js ''a'' @ [CR, LF] @ js ''b''\<rparr> = Inl sample_error
   \<and> ko (processEntry sample_host_save_fails (js ''ws'') [] sample_start sample_existing) = 1
   \<and> messages (processEntry sample_host_save_fails (js ''ws'') [] sample_start sample_existing)
       = [\<lparr>kind = Fail, entry_text = js ''x: Error: boom''\<rparr>]
   \<and> trace (processEntry sample_host_save_fails (js ''ws'') [] sample_start sample_existing)
       = [CallParsePatch (js ''patch''), OpenTextDocument (js ''ws/x''),
          CallApplyPatch (js ''a'' @ [LF] @ js ''b'') sample_existing,
          ApplyEdit [Replace (js ''ws/x'') (Range (Position 0 0) (Position 0 4))
                       (js ''a'' @ [LF] @ js ''b+'' @ [CR, LF])],
          Save \<lparr>doc_uri = js ''ws/x'', doc_text = js ''a'' @ [CR, LF] @ js ''b''\<rparr>]"
  by code_simp

text \<open>
  C4. When the parser returns a non-empty list, the library is called once for each
  entry that is not skipped, in the parser's order; the results panel is opened once,
  with one message for each of these entries in the same order, each message starting
  with its entry's path; and the panel lists the rendered messages in list order. The
  loop over a list is the loop over its first part followed by the loop over the rest.
\<close>

theorem entries_are_processed_in_order:
  assumes "trim patch \<noteq> []" and "workspaceFolder0 h hist = Some folder"
    and "Diff_parsePatch h patch = Inr files" and "files \<noteq> []"
  shows "map snd (patchCalls (applyPatch h this hist patch)) = filter (\<lambda>fp. \<not> skipped fp) files
         \<and> (\<exists>a b ms. panels (applyPatch h this hist patch) = [(a, b, ms)]
               \<and> list_all2 reports (filter (\<lambda>fp. \<not> skipped fp) files) ms
               \<and> resultLines ms = concat (map lineHtml ms))
         \<and> (\<forall>xs ys st. applyLoop h folder hist (xs @ ys) st =
               applyLoop h folder hist ys (applyLoop h folder hist xs st))"
proof -
  let ?init = "\<lparr>ok = 0, ko = 0, messages = [], trace = [CallParsePatch patch]\<rparr> :: 'a loop_state"
  let ?fin = "applyLoop h folder hist files ?init"
  have run: "applyPatch h this hist patch =
               trace ?fin @ [ShowResultPanel (ok ?fin) (ko ?fin) (messages ?fin), ClipboardWriteText []]
               @ (case view this of None \<Rightarrow> [] | Some v \<Rightarrow> [PostMessage v Clear])"
    by (rule applyPatch_run[OF assms])
  have quiet: "panels (trace ?fin) = []"
    using runEvents_quiet[of "trace ?fin" UNIV]
      applyPatch_loop_quiet[of _ h folder hist files patch] by blast
  have calls: "map snd (patchCalls (applyPatch h this hist patch)) =
                 filter (\<lambda>fp. \<not> skipped fp) files"
    unfolding run using applyLoop_patchCalls[of h folder hist files ?init]
    by (simp split: option.splits)
  have pan: "panels (applyPatch h this hist patch) = [(ok ?fin, ko ?fin, messages ?fin)]"
    unfolding run using quiet by (simp split: option.splits)
  have msgs: "list_all2 reports (filter (\<lambda>fp. \<not> skipped fp) files) (messages ?fin)"
    using applyLoop_messages[of h folder hist files ?init] by simp
  have lines: "resultLines (messages ?fin) = concat (map lineHtml (messages ?fin))"
    by (simp add: resultLines_def join_empty_separator)
  from calls pan msgs lines show ?thesis
    using applyLoop_append by blast
qed

theorem entries_are_processed_in_order_witness:
  "trim (js ''patch'') \<noteq> [] \<and> workspaceFolder0 sample_host [] = Some (js ''ws'')
   \<and> Diff_parsePatch sample_host (js ''patch'') = Inr sample_files \<and> sample_files \<noteq> []
   \<and> map snd (patchCalls (applyPatch sample_host \<lparr>view = None\<rparr> [] (js ''patch'')))
       = [sample_existing, sample_new, sample_bad]
   \<and> panels (applyPatch sample_host \<lparr>view = None\<rparr> [] (js ''patch'')) =
       [(2, 1, [\<lparr>kind = Ok, entry_text = js ''x: patched and saved.''\<rparr>,
                \<lparr>kind = New, entry_text = js ''new: created and patched.''\<rparr>,
                \<lparr>kind = Fail, entry_text = js ''bad: patch failed.''\<rparr>])]"
proof -
  have h1: "trim (js ''patch'') \<noteq> []" by code_simp
  have h2: "workspaceFolder0 sample_host [] = Some (js ''ws'')" by code_simp
  have h3: "Diff_parsePatch sample_host (js ''patch'') = Inr sample_files" by code_simp
  have h4: "sample_files \<noteq> []" by code_simp
  from entries_are_processed_in_order[OF h1 h2 h3 h4, of "\<lparr>view = None\<rparr>"]
  have "map snd (patchCalls (applyPatch sample_host \<lparr>view = None\<rparr> [] (js ''patch'')))
          = filter (\<lambda>fp. \<not> skipped fp) sample_files"
    by blast
  also have "\<dots> = [sample_existing, sample_new, sample_bad]"
    by code_simp
  finally have c: "map snd (patchCalls (applyPatch sample_host \<lparr>view = None\<rparr> [] (js ''patch'')))
       = [sample_existing, sample_new, sample_bad]" .
  have p: "panels (applyPatch sample_host \<lparr>view = None\<rparr> [] (js ''patch'')) =
       [(2, 1, [\<lparr>kind = Ok, entry_text = js ''x: patched and saved.''\<rparr>,
                \<lparr>kind = New, entry_text = js ''new: created and patched.''\<rparr>,
                \<lparr>kind = Fail, entry_text = js ''bad: patch failed.''\<rparr>])]"
    by code_simp
  from h1 h2 h3 h4 c p show ?thesis by blast
qed

text \<open>
  C5. When the results panel is opened, its two counters and its message list satisfy:
  ok is the number of \<open>Ok\<close> and \<open>New\<close> entries, ko is the number of \<open>Fail\<close> entries, their
  sum is the length of the list, and the sum is at most the number of parsed entries.
\<close>

theorem panel_counters_match_messages:
  assumes "trim patch \<noteq> []" and "workspaceFolder0 h hist = Some folder"
    and "Diff_parsePatch h patch = Inr files" and "files \<noteq> []"
  shows "\<exists>a b ms. panels (applyPatch h this hist patch) = [(a, b, ms)]
           \<and> a = length (filter (\<lambda>m. kind m = Ok \<or> kind m = New) ms)
           \<and> b = length (filter (\<lambda>m. kind m = Fail) ms)
           \<and> a + b = length ms
           \<and> a + b \<le> length files"
proof -
  let ?init = "\<lparr>ok = 0, ko = 0, messages = [], trace = [CallParsePatch patch]\<rparr> :: 'a loop_state"
  let ?fin = "applyLoop h folder hist files ?init"
  have run: "applyPatch h this hist patch =
               trace ?fin @ [ShowResultPanel (ok ?fin) (ko ?fin) (messages ?fin), ClipboardWriteText []]
               @ (case view this of None \<Rightarrow> [] | Some v \<Rightarrow> [PostMessage v Clear])"
    by (rule applyPatch_run[OF assms])
  have quiet: "panels (trace ?fin) = []"
    using runEvents_quiet[of "trace ?fin" UNIV]
      applyPatch_loop_quiet[of _ h folder hist files patch] by blast
  have pan: "panels (applyPatch h this hist patch) = [(ok ?fin, ko ?fin, messages ?fin)]"
    unfolding run using quiet by (simp split: option.splits)
  have "accounted ?init"
    by (simp add: accounted_def)
  then have acc: "accounted ?fin"
    by (rule applyLoop_accounted)
  have "list_all2 reports (filter (\<lambda>fp. \<not> skipped fp) files) (messages ?fin)"
    using applyLoop_messages[of h folder hist files ?init] by simp
  then have "length (messages ?fin) = length (filter (\<lambda>fp. \<not> skipped fp) files)"
    by (simp add: list_all2_lengthD)
  then have "length (messages ?fin) \<le> length files"
    by simp
  with acc pan show ?thesis
    by (simp add: accounted_def)
qed

theorem panel_counters_match_messages_witness:
  "trim (js ''patch'') \<noteq> [] \<and> workspaceFolder0 sample_host [] = Some (js ''ws'')
   \<and> Diff_parsePatch sample_host (js ''patch'') = Inr sample_files \<and> sample_files \<noteq> []
   \<and> (\<exists>a b ms. panels (applyPatch sample_host \<lparr>view = Some 7\<rparr> [] (js ''patch'')) = [(a, b, ms)]
           \<and> a = length (filter (\<lambda>m. kind m = Ok \<or> kind m = New) ms)
           \<and> b = length (filter (\<lambda>m. kind m = Fail) ms)
           \<and> a + b = length ms
           \<and> a + b \<le> length sample_files)
   \<and> map fst (panels (applyPatch sample_host \<lparr>view = Some 7\<rparr> [] (js ''patch''))) = [2]
   \<and> map (fst \<circ> snd) (panels (applyPatch sample_host \<lparr>view = Some 7\<rparr> [] (js ''patch''))) = [1]
   \<and> length sample_files = 4"
proof -
  have h1: "trim (js ''patch'') \<noteq> []" by code_simp
  have h2: "workspaceFolder0 sample_host [] = Some (js ''ws'')" by code_simp
  have h3: "Diff_parsePatch sample_host (js ''patch'') = Inr sample_files" by code_simp
  have h4: "sample_files \<noteq> []" by code_simp
  have c1: "map fst (panels (applyPatch sample_host \<lparr>view = Some 7\<rparr> [] (js ''patch''))) = [2]"
    by code_simp
  have c2: "map (fst \<circ> snd) (panels (applyPatch sample_host \<lparr>view = Some 7\<rparr> [] (js ''patch''))) = [1]"
    by code_simp
  have c3: "length sample_files = 4"
    by code_simp
  from panel_counters_match_messages[OF h1 h2 h3 h4, of "\<lparr>view = Some 7\<rparr>"] h1 h2 h3 h4 c1 c2 c3
  show ?thesis by blast
qed




text \<open>
  C7. The command reads the clipboard and runs applyPatch on exactly the text read; the
  Apply button's message carries the text area's value, and the view's handler runs
  applyPatch on exactly that value, with nothing before or after.
\<close>

theorem command_and_view_delegate_to_applyPatch:
  "gitPastePatch_apply h provider hist =
     ClipboardReadText
       # applyPatch h provider (hist @ [ClipboardReadText]) (clipboard_readText h hist)
   \<and> onDidReceiveMessage h this v hist (Some (applyButton_click patchArea_value)) =
       applyPatch h this hist patchArea_value"
  by (simp add: gitPastePatch_apply_def onDidReceiveMessage_def applyButton_click_def)

text \<open>
  C8. On each guard (the input is empty or consists of white space only, no workspace
  folder is open, the parser throws, the parser returns no entry) applyPatch shows
  exactly one message and does nothing else but, in the last two cases, call the parser
  before: no workspace edit, no results panel, no clipboard write, no message to the view.
\<close>

theorem guards_only_show_one_message:
  "(list_all isWhiteSpace patch \<longrightarrow>
      applyPatch h this hist patch = [ShowWarningMessage (js ''No patch detected.'')])
   \<and> (\<not> list_all isWhiteSpace patch \<and> workspaceFolder0 h hist = None \<longrightarrow>
      applyPatch h this hist patch = [ShowErrorMessage (js ''Open a workspace folder first.'')])
   \<and> (\<not> list_all isWhiteSpace patch \<and> workspaceFolder0 h hist = Some folder
        \<and> Diff_parsePatch h patch = Inl e \<longrightarrow>
      applyPatch h this hist patch =
        [CallParsePatch patch, ShowErrorMessage (js ''Cannot read patch: '' @ thrown_message e)])
   \<and> (\<not> list_all isWhiteSpace patch \<and> workspaceFolder0 h hist = Some folder
        \<and> Diff_parsePatch h patch = Inr [] \<longrightarrow>
      applyPatch h this hist patch =
        [CallParsePatch patch, ShowWarningMessage (js ''No files found in the patch.'')])
   \<and> (list_all isWhiteSpace patch \<or> workspaceFolder0 h hist = None
        \<or> (\<exists>x. Diff_parsePatch h patch = Inl x) \<or> Diff_parsePatch h patch = Inr [] \<longrightarrow>
      length (notifications (applyPatch h this hist patch)) = 1
      \<and> edits (applyPatch h this hist patch) = []
      \<and> panels (applyPatch h this hist patch) = []
      \<and> clipboardWrites (applyPatch h this hist patch) = []
      \<and> posts (applyPatch h this hist patch) = []
      \<and> set (applyPatch h this hist patch) \<subseteq>
          {CallParsePatch patch} \<union> range ShowWarningMessage \<union> range ShowErrorMessage)"
  by (auto simp: applyPatch_def trim_empty_iff split: option.splits sum.splits)

theorem guards_only_show_one_message_witness:
  "list_all isWhiteSpace (js '' '' @ [CR, LF])
   \<and> applyPatch sample_host \<lparr>view = Some 7\<rparr> [] (js '' '' @ [CR, LF])
       = [ShowWarningMessage (js ''No patch detected.'')]
   \<and> \<not> list_all isWhiteSpace (js ''patch'') \<and> workspaceFolder0 sample_host_no_folder [] = None
   \<and> applyPatch sample_host_no_folder \<lparr>view = Some 7\<rparr> [] (js ''patch'')
       = [ShowErrorMessage (js ''Open a workspace folder first.'')]
   \<and> \<not> list_all isWhiteSpace (js ''bad'') \<and> workspaceFolder0 sample_host [] = Some (js ''ws'')
   \<and> Diff_parsePatch sample_host (js ''bad'') = Inl sample_error
   \<and> applyPatch sample_host \<lparr>view = Some 7\<rparr> [] (js ''bad'')
       = [CallParsePatch (js ''bad''),
          ShowErrorMessage (js ''Cannot read patch: '' @ thrown_message sample_error)]
   \<and> \<not> list_all isWhiteSpace (js ''none'')
   \<and> Diff_parsePatch sample_host (js ''none'') = Inr []
   \<and> applyPatch sample_host \<lparr>view = Some 7\<rparr> [] (js ''none'')
       = [CallParsePatch (js ''none''), ShowWarningMessage (js ''No files found in the patch.'')]
   \<and> posts (applyPatch sample_host \<lparr>view = Some 7\<rparr> [] (js ''none'')) = []"
proof -
  have a: "list_all isWhiteSpace (js '' '' @ [CR, LF])" by code_simp
  have b: "\<not> list_all isWhiteSpace (js ''patch'')" "workspaceFolder0 sample_host_no_folder [] = None"
    by code_simp+
  have c: "\<not> list_all isWhiteSpace (js ''bad'')" "workspaceFolder0 sample_host [] = Some (js ''ws'')"
    "Diff_parsePatch sample_host (js ''bad'') = Inl sample_error"
    by code_simp+
  have d: "\<not> list_all isWhiteSpace (js ''none'')" "Diff_parsePatch sample_host (js ''none'') = Inr []"
    by code_simp+
  note ga = guards_only_show_one_message[where patch = "js '' '' @ [CR, LF]" and h = sample_host
      and this = "\<lparr>view = Some 7\<rparr>" and hist = "[]"]
  note gb = guards_only_show_one_message[where patch = "js ''patch''"
      and h = sample_host_no_folder and this = "\<lparr>view = Some 7\<rparr>" and hist = "[]"]
  note gc = guards_only_show_one_message[where patch = "js ''bad''" and h = sample_host
      and this = "\<lparr>view = Some 7\<rparr>" and hist = "[]" and folder = "js ''ws''"
      and e = sample_error]
  note gd = guards_only_show_one_message[where patch = "js ''none''" and h = sample_host
      and this = "\<lparr>view = Some 7\<rparr>" and hist = "[]" and folder = "js ''ws''"]
  from ga a have ra: "applyPatch sample_host \<lparr>view = Some 7\<rparr> [] (js '' '' @ [CR, LF])
       = [ShowWarningMessage (js ''No patch detected.'')]"
    by blast
  from gb b have rb: "applyPatch sample_host_no_folder \<lparr>view = Some 7\<rparr> [] (js ''patch'')
       = [ShowErrorMessage (js ''Open a workspace folder first.'')]"
    by blast
  from gc c have rc: "applyPatch sample_host \<lparr>view = Some 7\<rparr> [] (js ''bad'')
       = [CallParsePatch (js ''bad''),
          ShowErrorMessage (js ''Cannot read patch: '' @ thrown_message sample_error)]"
    by blast
  from gd c(2) d have rd: "applyPatch sample_host \<lparr>view = Some 7\<rparr> [] (js ''none'')
       = [CallParsePatch (js ''none''), ShowWarningMessage (js ''No files found in the patch.'')]"
    by blast
  from gd d have re: "posts (applyPatch sample_host \<lparr>view = Some 7\<rparr> [] (js ''none'')) = []"
    by blast
  from a b c d ra rb rc rd re show ?thesis by blast
qed

text \<open>
  C9. The relative path of an entry follows the rule of the specification, with
  ``present'' read as defined and not empty: the new name when present, otherwise the old
  name; an entry with no such name, or with \<^verbatim>\<open>/dev/null\<close>, is skipped and leaves the
  counters, the messages and the calls as they were; otherwise a leading \<^verbatim>\<open>a/\<close> is
  removed, then a leading \<^verbatim>\<open>b/\<close>, and every backslash becomes a slash; \<^verbatim>\<open>a/b/x\<close>
  resolves to \<^verbatim>\<open>x\<close>.
\<close>

theorem relative_path_follows_the_rule:
  "relPathOf fp = spec_relPath (newFileName fp) (oldFileName fp)
   \<and> (relPathOf fp = None \<longrightarrow> processEntry h folder hist st fp = st)
   \<and> relPathOf \<lparr>oldFileName = old, newFileName = Some (js ''a/b/x''), hunks = x\<rparr>
       = Some (js ''x'')"
proof -
  have "relPathOf \<lparr>oldFileName = old, newFileName = Some (js ''a/b/x''), hunks = x\<rparr>
          = Some (js ''x'')"
    by (simp add: relPathOf_def js_or_def truthy_def js_def stripPrefix_def startsWith_def
          substring_def replaceBackslashes_def)
  then show ?thesis
    by (simp add: spec_relPath_refines processEntry_def)
qed

theorem relative_path_follows_the_rule_witness:
  "relPathOf sample_deleted = None
   \<and> processEntry sample_host (js ''ws'') [] sample_start sample_deleted = sample_start
   \<and> spec_relPath (newFileName sample_new) (oldFileName sample_new) = Some (js ''new'')
   \<and> relPathOf sample_new = Some (js ''new'')"
proof -
  have n: "relPathOf sample_deleted = None"
    by code_simp
  have s: "spec_relPath (newFileName sample_new) (oldFileName sample_new) = Some (js ''new'')"
    by code_simp
  note t = relative_path_follows_the_rule[where fp = sample_deleted and h = sample_host
      and folder = "js ''ws''" and hist = "[]" and st = sample_start
      and old = None and x = "0::nat"]
  note t' = relative_path_follows_the_rule[where fp = sample_new and h = sample_host
      and folder = "js ''ws''" and hist = "[]" and st = sample_start
      and old = None and x = "0::nat"]
  from t n have "processEntry sample_host (js ''ws'') [] sample_start sample_deleted = sample_start"
    by blast
  moreover from t' s have "relPathOf sample_new = Some (js ''new'')"
    by simp
  ultimately show ?thesis
    using n s by blast
qed

text \<open>
  C10 as stated fails: when the command runs before the input view has ever been
  resolved, the loop is reached, the panel is opened and the clipboard is cleared, but
  no message is posted.
\<close>

theorem no_clear_message_without_view_counterexample:
  "Diff_parsePatch sample_host (js ''patch'') = Inr sample_files
   \<and> panels (applyPatch sample_host \<lparr>view = None\<rparr> [] (js ''patch'')) =
       [(2, 1, [\<lparr>kind = Ok, entry_text = js ''x: patched and saved.''\<rparr>,
                \<lparr>kind = New, entry_text = js ''new: created and patched.''\<rparr>,
                \<lparr>kind = Fail, entry_text = js ''bad: patch failed.''\<rparr>])]
   \<and> clipboardWrites (applyPatch sample_host \<lparr>view = None\<rparr> [] (js ''patch'')) = [[]]
   \<and> posts (applyPatch sample_host \<lparr>view = None\<rparr> [] (js ''patch'')) = []"
  by code_simp

text \<open>
  C10, as the code has it. Whenever applyPatch reaches its loop, it ends by opening the
  results panel, then writing the empty string to the clipboard, and then, if the input
  view has been resolved, posting a clear message to it; when no view has been resolved
  nothing is posted. Nothing before the panel writes the clipboard or posts a message,
  whatever the entries did.
\<close>

theorem run_ends_with_clipboard_clear_and_view_clear:
  assumes "trim patch \<noteq> []" and "workspaceFolder0 h hist = Some folder"
    and "Diff_parsePatch h patch = Inr files" and "files \<noteq> []"
  shows "\<exists>before a b ms.
           applyPatch h this hist patch =
             before @ [ShowResultPanel a b ms, ClipboardWriteText []]
               @ (case view this of None \<Rightarrow> [] | Some v \<Rightarrow> [PostMessage v Clear])
           \<and> clipboardWrites before = [] \<and> posts before = [] \<and> panels before = []"
proof -
  let ?init = "\<lparr>ok = 0, ko = 0, messages = [], trace = [CallParsePatch patch]\<rparr> :: 'a loop_state"
  let ?fin = "applyLoop h folder hist files ?init"
  have run: "applyPatch h this hist patch =
               trace ?fin @ [ShowResultPanel (ok ?fin) (ko ?fin) (messages ?fin), ClipboardWriteText []]
               @ (case view this of None \<Rightarrow> [] | Some v \<Rightarrow> [PostMessage v Clear])"
    by (rule applyPatch_run[OF assms])
  have "clipboardWrites (trace ?fin) = [] \<and> posts (trace ?fin) = [] \<and> panels (trace ?fin) = []"
    using runEvents_quiet[of "trace ?fin" UNIV]
      applyPatch_loop_quiet[of _ h folder hist files patch] by blast
  with run show ?thesis by blast
qed

theorem run_ends_with_clipboard_clear_and_view_clear_witness:
  "trim (js ''patch'') \<noteq> [] \<and> workspaceFolder0 sample_host [] = Some (js ''ws'')
   \<and> Diff_parsePatch sample_host (js ''patch'') = Inr sample_files \<and> sample_files \<noteq> []
   \<and> (\<exists>before a b ms.
           applyPatch sample_host \<lparr>view = Some 7\<rparr> [] (js ''patch'') =
             before @ [ShowResultPanel a b ms, ClipboardWriteText []]
               @ (case view \<lparr>view = Some 7\<rparr> of None \<Rightarrow> [] | Some v \<Rightarrow> [PostMessage v Clear])
           \<and> clipboardWrites before = [] \<and> posts before = [] \<and> panels before = [])
   \<and> clipboardWrites (applyPatch sample_host \<lparr>view = Some 7\<rparr> [] (js ''patch'')) = [[]]
   \<and> posts (applyPatch sample_host \<lparr>view = Some 7\<rparr> [] (js ''patch'')) = [(7, Clear)]"
proof -
  have h1: "trim (js ''patch'') \<noteq> []" by code_simp
  have h2: "workspaceFolder0 sample_host [] = Some (js ''ws'')" by code_simp
  have h3: "Diff_parsePatch sample_host (js ''patch'') = Inr sample_files" by code_simp
  have h4: "sample_files \<noteq> []" by code_simp
  have c: "clipboardWrites (applyPatch sample_host \<lparr>view = Some 7\<rparr> [] (js ''patch'')) = [[]]"
    by code_simp
  have p: "posts (applyPatch sample_host \<lparr>view = Some 7\<rparr> [] (js ''patch'')) = [(7, Clear)]"
    by code_simp
  from run_ends_with_clipboard_clear_and_view_clear[OF h1 h2 h3 h4, of "\<lparr>view = Some 7\<rparr>"]
    h1 h2 h3 h4 c p
  show ?thesis by blast
qed

end
